theory Spec2Isabelle
  imports Complex_Main "HOL-Library.Word"
begin

section \<open>KrishiRakshak firmware: the sensor-to-alert pipeline\<close>

text \<open>
  A shallow embedding of \<^verbatim>\<open>src/firmware\<close>: \<^verbatim>\<open>ml_inference.c\<close> (feature
  extraction, int8 quantisation, arg-max and dequantisation), \<^verbatim>\<open>main.c\<close> (the
  confidence-gated alert decision) and \<^verbatim>\<open>wireless_comms.c\<close> (the rate-limited
  alert dispatcher and its JSON payload).

  Conventions. The value of a C \<^verbatim>\<open>float\<close> is a \<^typ>\<open>real\<close>. The quantiser and
  the dequantiser (\<^verbatim>\<open>ml_inference.c\<close>, lines 108, 139 and 148) compute in IEEE-754
  binary32, every operation rounded to nearest with ties to even: \<open>quantize\<close> and
  \<open>dequantize\<close> model that arithmetic, rounding included. Elsewhere (feature
  extraction, the scores held in the result structure, the threshold comparison, the
  confidence percentage) a real is the exact value of the C expression and the rounding
  error of the format is not represented. \<^verbatim>\<open>int8_t\<close>, \<^verbatim>\<open>uint8_t\<close>
  and \<^verbatim>\<open>uint32_t\<close> are words of that width (\<open>sint\<close> reads an int8). A conversion
  from float to an integer type truncates toward zero and is undefined in C when the
  truncated value does not fit; that outcome is the error \<open>CAST_UNDEFINED\<close>.
\<close>

subsection \<open>Data (ml\_inference.h, wireless\_comms.h)\<close>

text \<open>\<^verbatim>\<open>ml_class_t\<close>: a C enum, so an integer; \<^verbatim>\<open>run_ml_inference\<close> stores the
  loop index \<^verbatim>\<open>max_index\<close> into it.\<close>

type_synonym ml_class_t = int

definition CLASS_NORMAL :: ml_class_t where "CLASS_NORMAL = 0"
definition CLASS_WATER_STRESS :: ml_class_t where "CLASS_WATER_STRESS = 1"
definition CLASS_PEST_RISK :: ml_class_t where "CLASS_PEST_RISK = 2"
definition CLASS_UNKNOWN :: ml_class_t where "CLASS_UNKNOWN = 255"

record sensor_data_t =
  soil_moisture :: real
  temperature :: real
  humidity :: real
  audio_energy :: real
  timestamp :: "32 word"

record ml_result_t =
  predicted_class :: ml_class_t
  confidence :: real
  raw_scores :: "real list"
  inference_time_us :: "32 word"

datatype alert_type_t =
  ALERT_WATER_STRESS | ALERT_PEST_RISK | ALERT_LOW_BATTERY | ALERT_SYSTEM_ERROR

datatype error = NOT_INITIALIZED | INVOKE_FAILED | CAST_UNDEFINED

subsection \<open>Binary32 arithmetic (the float of lines 108, 139 and 148)\<close>

text \<open>
  A finite binary32 number is a real \<open>k * 2 ^ e\<close> with \<open>\<bar>k\<bar> < 2 ^ 24\<close> and
  \<open>- 149 \<le> e \<le> 104\<close>. Every operation on floats is computed as the exact real result
  rounded to the nearest such number, ties to the even significand, each operation in
  that format (\<^verbatim>\<open>FLT_EVAL_METHOD\<close> 0). Infinities and NaN are not numbers of the
  model: an operation whose result is not finite yields \<open>None\<close>.
\<close>

text \<open>The number of binary digits of a positive integer.\<close>

function bits :: "int \<Rightarrow> int" where
  "bits n = (if n \<le> 0 then 0 else 1 + bits (n div 2))"
  by pat_completeness auto
termination
  by (relation "measure nat") auto

declare bits.simps [simp del]

text \<open>For \<open>x > 0\<close>, the integer \<open>e\<close> with \<open>2 ^ e \<le> x < 2 ^ (e + 1)\<close>.\<close>

definition floor_log2 :: "real \<Rightarrow> int" where
  "floor_log2 x =
     (if 1 \<le> x then bits \<lfloor>x\<rfloor> - 1 else - bits (\<lceil>1 / x\<rceil> - 1))"

definition pow2 :: "int \<Rightarrow> real" where
  "pow2 e = (if 0 \<le> e then 2 ^ nat e else 1 / 2 ^ nat (- e))"

text \<open>The nearest integer, a tie going to the even one.\<close>

definition round_half_even :: "real \<Rightarrow> int" where
  "round_half_even z =
     (let n = \<lfloor>z\<rfloor>; r = z - real_of_int n
      in if r < 1 / 2 then n else if 1 / 2 < r then n + 1
         else if even n then n else n + 1)"

text \<open>The spacing of the binary32 numbers around \<open>x\<close>: 24 significant bits, and the
  fixed spacing \<open>2 ^ - 149\<close> of the subnormal numbers below \<open>2 ^ - 126\<close>.\<close>

definition f32_ulp :: "real \<Rightarrow> real" where
  "f32_ulp x = pow2 (max (- 126) (floor_log2 \<bar>x\<bar>) - 23)"

text \<open>Rounding to binary32, the exponent not yet bounded above.\<close>

definition f32_round :: "real \<Rightarrow> real" where
  "f32_round x =
     (if x = 0 then 0 else real_of_int (round_half_even (x / f32_ulp x)) * f32_ulp x)"

text \<open>\<^verbatim>\<open>FLT_MAX\<close>, the greatest finite binary32 number.\<close>

definition FLT_MAX :: real where
  "FLT_MAX = (2 ^ 24 - 1) * 2 ^ 104"

text \<open>The float that a real rounds to; \<open>None\<close> when the rounded value exceeds
  \<^verbatim>\<open>FLT_MAX\<close> (IEEE-754 gives an infinity there).\<close>

definition to_f32 :: "real \<Rightarrow> real option" where
  "to_f32 x = (if \<bar>f32_round x\<bar> \<le> FLT_MAX then Some (f32_round x) else None)"

text \<open>Division, addition and multiplication of two floats. A division by zero gives an
  infinity or NaN.\<close>

definition f32_div :: "real \<Rightarrow> real \<Rightarrow> real option" where
  "f32_div a b = (if b = 0 then None else to_f32 (a / b))"

definition f32_add :: "real \<Rightarrow> real \<Rightarrow> real option" where
  "f32_add a b = to_f32 (a + b)"

definition f32_mul :: "real \<Rightarrow> real \<Rightarrow> real option" where
  "f32_mul a b = to_f32 (a * b)"

text \<open>The conversion of an \<^verbatim>\<open>int32_t\<close> to float (every int32 is within the finite
  range), and the values an \<^verbatim>\<open>int32_t\<close> can hold.\<close>

definition f32_of_int :: "int \<Rightarrow> real" where
  "f32_of_int n = f32_round (real_of_int n)"

definition int32_range :: "int \<Rightarrow> bool" where
  "int32_range n \<longleftrightarrow> - (2 ^ 31) \<le> n \<and> n < 2 ^ 31"

subsection \<open>Feature extraction and quantisation (run\_ml\_inference, lines 98--109)\<close>

text \<open>Lines 99--103: the four features, in order.\<close>

definition extract_features :: "sensor_data_t \<Rightarrow> real list" where
  "extract_features sensor_data =
     [soil_moisture sensor_data / 100,
      (temperature sensor_data - 10) / 40,
      humidity sensor_data / 100,
      audio_energy sensor_data]"

text \<open>C's conversion of a floating value to an integer discards the fractional part.\<close>

definition trunc_toward_zero :: "real \<Rightarrow> int" where
  "trunc_toward_zero x = (if 0 \<le> x then \<lfloor>x\<rfloor> else \<lceil>x\<rceil>)"

text \<open>\<^verbatim>\<open>(int8_t)x\<close> for a float \<open>x\<close>: defined only when the truncated value is an int8.\<close>

definition float_to_int8 :: "real \<Rightarrow> 8 word option" where
  "float_to_int8 x =
     (let t = trunc_toward_zero x
      in if - 128 \<le> t \<and> t \<le> 127 then Some (word_of_int t) else None)"

text \<open>Line 108, one element, the operand of the cast:
  \<^verbatim>\<open>features[i] / input_scale + input_zero_point\<close>. Both \<^verbatim>\<open>features[i]\<close> and
  \<^verbatim>\<open>input_scale\<close> are float objects: a real argument stands for the float it is stored
  as. The quotient is a float division; \<^verbatim>\<open>input_zero_point\<close> is an \<^verbatim>\<open>int32_t\<close>,
  converted to float for the float addition. \<open>None\<close>: the operand is not a finite
  number (zero scale, overflow), and its conversion to \<^verbatim>\<open>int8_t\<close> is then
  undefined.\<close>

definition quantize_operand :: "real \<Rightarrow> int \<Rightarrow> real \<Rightarrow> real option" where
  "quantize_operand scale zero_point f =
     (if int32_range zero_point
      then case (to_f32 f, to_f32 scale) of
        (Some f', Some scale') \<Rightarrow>
          (case f32_div f' scale' of
             None \<Rightarrow> None
           | Some a \<Rightarrow> f32_add a (f32_of_int zero_point))
      | _ \<Rightarrow> None
      else None)"

text \<open>Line 108, one element:
  \<^verbatim>\<open>(int8_t)(features[i] / input_scale + input_zero_point)\<close>.\<close>

definition quantize :: "real \<Rightarrow> int \<Rightarrow> real \<Rightarrow> 8 word option" where
  "quantize scale zero_point f =
     (case quantize_operand scale zero_point f of
        None \<Rightarrow> None
      | Some y \<Rightarrow> float_to_int8 y)"

text \<open>Lines 139 and 148: \<^verbatim>\<open>(q - output_zero_point) * output_scale\<close>. The int8 is
  promoted to \<^verbatim>\<open>int\<close> and the subtraction is a 32-bit signed one, undefined when it
  overflows; the difference is converted to float and the product is a float
  multiplication. \<open>None\<close>: the subtraction overflows or the product is not finite.\<close>

definition dequantize :: "real \<Rightarrow> int \<Rightarrow> 8 word \<Rightarrow> real option" where
  "dequantize scale zero_point q =
     (let m = sint q - zero_point
      in if int32_range zero_point \<and> int32_range m
         then case to_f32 scale of
           None \<Rightarrow> None
         | Some scale' \<Rightarrow> f32_mul (f32_of_int m) scale'
         else None)"

text \<open>The same expression in exact arithmetic: the real number that the float of lines
  139 and 148 approximates. The result structure below holds the scores as these exact
  values; \<open>dequantize_close\<close> bounds their distance to the floats the code stores and
  \<open>dequantize_order\<close> shows that the floats are ordered as they are.\<close>

definition dequantize_exact :: "real \<Rightarrow> int \<Rightarrow> 8 word \<Rightarrow> real" where
  "dequantize_exact scale zero_point q = real_of_int (sint q - zero_point) * scale"


subsection \<open>Arg-max and result (run\_ml\_inference, lines 111--155)\<close>

text \<open>The inference engine (TensorFlow Lite Micro) is an external collaborator. What
  \<^verbatim>\<open>run_ml_inference\<close> reads of it: whether the interpreter and both tensors are
  set, the four quantisation parameters fetched by \<^verbatim>\<open>ml_model_init\<close>, and
  \<^verbatim>\<open>Invoke\<close>, which maps the int8 input tensor to the int8 output tensor or fails
  (\<open>None\<close>: a status other than \<^verbatim>\<open>kTfLiteOk\<close>).\<close>

record ml_engine =
  initialized :: bool
  input_scale :: real
  input_zero_point :: int
  output_scale :: real
  output_zero_point :: int
  invoke :: "8 word list \<Rightarrow> 8 word list option"

text \<open>Lines 174--178: \<^verbatim>\<open>return system_tick * 1000\<close> in uint32 arithmetic.\<close>

definition get_current_time_us :: "32 word \<Rightarrow> 32 word" where
  "get_current_time_us tick = tick * 1000"

text \<open>Lines 131--136, the body of the loop at index \<open>i\<close>; the state is
  \<open>(max_score, max_index)\<close> and the comparison of two int8 values is strict.\<close>

definition max_step :: "8 word list \<Rightarrow> nat \<Rightarrow> 8 word \<times> nat \<Rightarrow> 8 word \<times> nat" where
  "max_step output_data i acc =
     (case acc of (max_score, max_index) \<Rightarrow>
        if sint (output_data ! i) > sint max_score then (output_data ! i, i)
        else (max_score, max_index))"

text \<open>Lines 128--136: start at index 0, then \<^verbatim>\<open>for (i = 1; i < 3; i++)\<close>.\<close>

definition find_max :: "8 word list \<Rightarrow> 8 word \<times> nat" where
  "find_max output_data = fold (max_step output_data) [1..<3] (output_data ! 0, 0)"

text \<open>Lines 138--149: the result structure, the scores as exact values.\<close>

definition ml_output_result :: "real \<Rightarrow> int \<Rightarrow> 8 word list \<Rightarrow> 32 word \<Rightarrow> ml_result_t" where
  "ml_output_result scale zero_point output_data inference_time =
     (case find_max output_data of (max_score, max_index) \<Rightarrow>
        \<lparr>predicted_class = int max_index,
         confidence = dequantize_exact scale zero_point max_score,
         raw_scores = map (\<lambda>i. dequantize_exact scale zero_point (output_data ! i)) [0..<3],
         inference_time_us = inference_time\<rparr>)"

text \<open>\<^verbatim>\<open>run_ml_inference\<close>: \<open>Inl NOT_INITIALIZED\<close> and \<open>Inl INVOKE_FAILED\<close> are its
  two \<^verbatim>\<open>return false\<close>; \<open>Inr\<close> is \<^verbatim>\<open>return true\<close> with the filled result.\<close>

definition run_ml_inference :: "ml_engine \<Rightarrow> 32 word \<Rightarrow> sensor_data_t \<Rightarrow> error + ml_result_t" where
  "run_ml_inference eng tick sensor_data =
     (if \<not> initialized eng then Inl NOT_INITIALIZED
      else case those (map (quantize (input_scale eng) (input_zero_point eng))
                         (extract_features sensor_data)) of
        None \<Rightarrow> Inl CAST_UNDEFINED
      | Some quantized_input \<Rightarrow>
          (let start_time = get_current_time_us tick
           in case invoke eng quantized_input of
             None \<Rightarrow> Inl INVOKE_FAILED
           | Some output_data \<Rightarrow>
               Inr (ml_output_result (output_scale eng) (output_zero_point eng) output_data
                      (get_current_time_us tick - start_time))))"

subsection \<open>The alert decision (main.c, process\_sensor\_data, lines 121--145)\<close>

definition ML_CONFIDENCE_THRESHOLD :: real where
  "ML_CONFIDENCE_THRESHOLD = 70"

text \<open>The \<^verbatim>\<open>if\<close> and the \<^verbatim>\<open>switch\<close>: which call of
  \<^verbatim>\<open>send_wireless_alert\<close> is made, if any. The first argument is the value of the
  macro \<^verbatim>\<open>ML_CONFIDENCE_THRESHOLD\<close>, which the condition divides by 100.0. The switch
  has no default case.\<close>

definition alert_decision :: "real \<Rightarrow> ml_result_t \<Rightarrow> alert_type_t option" where
  "alert_decision threshold ml_result =
     (if confidence ml_result > threshold / 100 then
        (if predicted_class ml_result = CLASS_NORMAL then None
         else if predicted_class ml_result = CLASS_WATER_STRESS then Some ALERT_WATER_STRESS
         else if predicted_class ml_result = CLASS_PEST_RISK then Some ALERT_PEST_RISK
         else None)
      else None)"

subsection \<open>The dispatcher (wireless\_comms.c)\<close>

text \<open>The globals the dispatcher reads and writes: \<^verbatim>\<open>system_tick\<close> (defined in
  main.c, where only the main loop advances it, by 30000 per cycle) and the two statics
  of wireless\_comms.c, both zero-initialised.\<close>

record globals =
  system_tick :: "32 word"
  wireless_connected :: bool
  last_alert_time :: "32 word"

definition boot_globals :: globals where
  "boot_globals = \<lparr>system_tick = 0, wireless_connected = False, last_alert_time = 0\<rparr>"

definition MIN_ALERT_INTERVAL_MS :: "32 word" where
  "MIN_ALERT_INTERVAL_MS = 300000"

definition DEVICE_ID :: string where
  "DEVICE_ID = ''KR_001''"

record alert_message_t =
  alert_device_id :: string
  alert_timestamp :: "32 word"
  alert_type :: alert_type_t
  alert_confidence :: "8 word"
  alert_sensor_data :: sensor_data_t

text \<open>What the code asks of the network stack and of the C library:
  \<^item> \<open>add_profile_ok\<close>: \<^verbatim>\<open>sl_net_wifi_add_profile\<close> returned \<^verbatim>\<open>SL_STATUS_OK\<close>;
  \<^item> \<open>profile_connected retry\<close>: at poll number \<open>retry\<close> the status call succeeded
    and reported \<^verbatim>\<open>SL_NET_WIFI_CLIENT_CONNECTED\<close>;
  \<^item> \<open>http_init_ok\<close>: \<^verbatim>\<open>sl_net_http_client_init\<close> returned \<^verbatim>\<open>SL_STATUS_OK\<close>;
  \<^item> \<open>http_post body len\<close>: the POST's (status is OK, response status code);
  \<^item> \<open>fmt_1f\<close>, \<open>fmt_2f\<close>: how \<^verbatim>\<open>snprintf\<close> prints a float under
    \<^verbatim>\<open>%.1f\<close> and \<^verbatim>\<open>%.2f\<close>;
  \<^item> \<open>uninit_sensor_data\<close>: the indeterminate content of the local
    \<^verbatim>\<open>alert.sensor_data\<close> of \<^verbatim>\<open>send_wireless_alert\<close> before anything is
    stored in it.\<close>

record platform =
  add_profile_ok :: bool
  profile_connected :: "nat \<Rightarrow> bool"
  http_init_ok :: bool
  http_post :: "string \<Rightarrow> int \<Rightarrow> bool \<times> int"
  fmt_1f :: "real \<Rightarrow> string"
  fmt_2f :: "real \<Rightarrow> string"
  uninit_sensor_data :: sensor_data_t

text \<open>The calls the dispatcher makes to the outside, in order.\<close>

datatype event = EV_WIFI_CONNECT | EV_HTTP_POST string int

text \<open>Lines 65--83: \<^verbatim>\<open>for (retry = 0; retry < 10; retry++)\<close>, leaving at the first
  poll that reports the connection; the last argument counts the polls left.\<close>

fun connect_poll :: "(nat \<Rightarrow> bool) \<Rightarrow> nat \<Rightarrow> nat \<Rightarrow> bool" where
  "connect_poll poll retry 0 = False"
| "connect_poll poll retry (Suc n) =
     (if poll retry then True else connect_poll poll (Suc retry) n)"

definition wireless_connect :: "platform \<Rightarrow> globals \<Rightarrow> bool \<times> globals" where
  "wireless_connect pf g =
     (if \<not> add_profile_ok pf then (False, g)
      else if connect_poll (profile_connected pf) 0 10
           then (True, g\<lparr>wireless_connected := True\<rparr>)
      else (False, g))"

fun get_alert_type_string :: "alert_type_t \<Rightarrow> string" where
  "get_alert_type_string ALERT_WATER_STRESS = ''water_stress''"
| "get_alert_type_string ALERT_PEST_RISK = ''pest_risk''"
| "get_alert_type_string ALERT_LOW_BATTERY = ''low_battery''"
| "get_alert_type_string ALERT_SYSTEM_ERROR = ''unknown''"

fun get_alert_recommendation :: "alert_type_t \<Rightarrow> string" where
  "get_alert_recommendation ALERT_WATER_STRESS = ''Initiate irrigation in affected area''"
| "get_alert_recommendation ALERT_PEST_RISK =
     ''Inspect crops for pest activity and consider treatment''"
| "get_alert_recommendation ALERT_LOW_BATTERY = ''Check solar panel and charging system''"
| "get_alert_recommendation ALERT_SYSTEM_ERROR = ''Monitor situation''"

text \<open>\<^verbatim>\<open>%lu\<close> and \<^verbatim>\<open>%d\<close> of a non-negative value: its decimal digits.\<close>

fun dec :: "nat \<Rightarrow> string" where
  "dec n = (if n < 10 then [''0123456789'' ! n]
            else dec (n div 10) @ [''0123456789'' ! (n mod 10)])"

declare dec.simps [simp del]

definition quoted :: "string \<Rightarrow> string" where
  "quoted s = [CHR 0x22] @ s @ [CHR 0x22]"

definition nl :: string where
  "nl = [CHR 0x0A]"

text \<open>Lines 144--167: the text the format string and its nine arguments produce.\<close>

definition alert_json_text :: "platform \<Rightarrow> alert_message_t \<Rightarrow> string" where
  "alert_json_text pf alert =
     ''{'' @ nl @
     ''  '' @ quoted ''device_id'' @ '': '' @ quoted (alert_device_id alert) @ '','' @ nl @
     ''  '' @ quoted ''timestamp'' @ '': '' @ dec (unat (alert_timestamp alert)) @ '','' @ nl @
     ''  '' @ quoted ''alert_type'' @ '': ''
          @ quoted (get_alert_type_string (alert_type alert)) @ '','' @ nl @
     ''  '' @ quoted ''confidence'' @ '': '' @ dec (unat (alert_confidence alert)) @ '','' @ nl @
     ''  '' @ quoted ''sensor_data'' @ '': {'' @ nl @
     ''    '' @ quoted ''moisture'' @ '': ''
          @ fmt_1f pf (soil_moisture (alert_sensor_data alert)) @ '','' @ nl @
     ''    '' @ quoted ''temperature'' @ '': ''
          @ fmt_1f pf (temperature (alert_sensor_data alert)) @ '','' @ nl @
     ''    '' @ quoted ''humidity'' @ '': ''
          @ fmt_1f pf (humidity (alert_sensor_data alert)) @ '','' @ nl @
     ''    '' @ quoted ''audio'' @ '': ''
          @ fmt_2f pf (audio_energy (alert_sensor_data alert)) @ nl @
     ''  },'' @ nl @
     ''  '' @ quoted ''recommendation'' @ '': ''
          @ quoted (get_alert_recommendation (alert_type alert)) @ nl @
     ''}''"

text \<open>\<^verbatim>\<open>format_alert_json\<close> is one \<^verbatim>\<open>snprintf\<close>: it returns the length of the
  whole text (negative when that exceeds \<^verbatim>\<open>INT_MAX\<close>) and leaves at most
  \<open>buffer_size - 1\<close> characters of it in the buffer.\<close>

definition format_alert_json :: "platform \<Rightarrow> alert_message_t \<Rightarrow> nat \<Rightarrow> int \<times> string" where
  "format_alert_json pf alert buffer_size =
     (let s = alert_json_text pf alert
      in (if length s > 2147483647 then - 1 else int (length s), take (buffer_size - 1) s))"

text \<open>Lines 173--202. The transport is handed the buffer and \<^verbatim>\<open>data_length\<close>; the model
  passes it the buffer's text, and does not represent the bytes behind the buffer that
  the transport reads when \<^verbatim>\<open>data_length\<close> exceeds it.\<close>

definition send_http_alert :: "platform \<Rightarrow> string \<Rightarrow> int \<Rightarrow> bool" where
  "send_http_alert pf json_data data_length =
     (if \<not> http_init_ok pf then False
      else case http_post pf json_data data_length of
        (status_ok, status_code) \<Rightarrow> status_ok \<and> status_code = 200)"

text \<open>\<^verbatim>\<open>(uint8_t)x\<close> for a float \<open>x\<close>.\<close>

definition float_to_uint8 :: "real \<Rightarrow> 8 word option" where
  "float_to_uint8 x =
     (let t = trunc_toward_zero x
      in if 0 \<le> t \<and> t \<le> 255 then Some (word_of_int t) else None)"

text \<open>Lines 99--103: \<^verbatim>\<open>!wireless_connected && !wireless_connect()\<close> calls
  \<^verbatim>\<open>wireless_connect\<close> only when the flag is clear. The result is (connected,
  globals, calls made).\<close>

definition ensure_connected :: "platform \<Rightarrow> globals \<Rightarrow> bool \<times> globals \<times> event list" where
  "ensure_connected pf g =
     (if wireless_connected g then (True, g, [])
      else case wireless_connect pf g of (ok, g') \<Rightarrow> (ok, g', [EV_WIFI_CONNECT]))"

text \<open>\<^verbatim>\<open>send_wireless_alert\<close> (lines 92--138). The pointer \<^verbatim>\<open>sensor_data\<close> is
  an option, \<open>None\<close> for \<^verbatim>\<open>NULL\<close>. The result is the returned flag, the globals
  afterwards and the outside calls made.\<close>

definition send_wireless_alert ::
  "platform \<Rightarrow> alert_type_t \<Rightarrow> sensor_data_t option \<Rightarrow> real \<Rightarrow> globals
     \<Rightarrow> error + (bool \<times> globals \<times> event list)" where
  "send_wireless_alert pf alert_ty sensor_data conf g =
     (if system_tick g - last_alert_time g < MIN_ALERT_INTERVAL_MS then Inr (False, g, [])
      else case ensure_connected pf g of (conn_ok, g1, ev1) \<Rightarrow>
        if \<not> conn_ok then Inr (False, g1, ev1)
        else case float_to_uint8 (conf * 100) of
          None \<Rightarrow> Inl CAST_UNDEFINED
        | Some c \<Rightarrow>
            (let alert = \<lparr>alert_device_id = DEVICE_ID,
                          alert_timestamp = system_tick g1,
                          alert_type = alert_ty,
                          alert_confidence = c,
                          alert_sensor_data =
                            (case sensor_data of Some sd \<Rightarrow> sd
                             | None \<Rightarrow> uninit_sensor_data pf)\<rparr>
             in case format_alert_json pf alert 256 of (json_length, json_buffer) \<Rightarrow>
               if json_length \<le> 0 then Inr (False, g1, ev1)
               else (let success = send_http_alert pf json_buffer json_length;
                         g2 = (if success then g1\<lparr>last_alert_time := system_tick g1\<rparr> else g1)
                     in Inr (success, g2, ev1 @ [EV_HTTP_POST json_buffer json_length]))))"

subsection \<open>Callers of the dispatcher (main.c)\<close>

text \<open>\<^verbatim>\<open>process_sensor_data\<close> (lines 112--149); the LEDs are left out.\<close>

definition process_sensor_data ::
  "ml_engine \<Rightarrow> platform \<Rightarrow> sensor_data_t \<Rightarrow> globals \<Rightarrow> error + (globals \<times> event list)" where
  "process_sensor_data eng pf current_sensor_data g =
     (case run_ml_inference eng (system_tick g) current_sensor_data of
        Inl e \<Rightarrow> (if e = CAST_UNDEFINED then Inl CAST_UNDEFINED else Inr (g, []))
      | Inr ml_result \<Rightarrow>
          (case alert_decision ML_CONFIDENCE_THRESHOLD ml_result of
             None \<Rightarrow> Inr (g, [])
           | Some alert_ty \<Rightarrow>
               (case send_wireless_alert pf alert_ty (Some current_sensor_data)
                       (confidence ml_result) g of
                  Inl e \<Rightarrow> Inl e
                | Inr (ok, g', ev) \<Rightarrow> Inr (g', ev))))"

definition BATTERY_LOW_THRESHOLD :: real where
  "BATTERY_LOW_THRESHOLD = 33 / 10"

text \<open>\<^verbatim>\<open>check_battery_level\<close> (lines 175--183), given the voltage read.\<close>

definition check_battery_level ::
  "platform \<Rightarrow> real \<Rightarrow> globals \<Rightarrow> error + (globals \<times> event list)" where
  "check_battery_level pf battery_voltage g =
     (if battery_voltage < BATTERY_LOW_THRESHOLD then
        (case send_wireless_alert pf ALERT_LOW_BATTERY None 0 g of
           Inl e \<Rightarrow> Inl e
         | Inr (ok, g', ev) \<Rightarrow> Inr (g', ev))
      else Inr (g, []))"

text \<open>A sequence of dispatcher invocations: each names the value of
  \<^verbatim>\<open>system_tick\<close> at the call, the platform's answers and the three arguments.\<close>

record alert_call =
  call_tick :: "32 word"
  call_platform :: platform
  call_type :: alert_type_t
  call_sensor_data :: "sensor_data_t option"
  call_confidence :: real

definition invoke_call :: "alert_call \<Rightarrow> globals \<Rightarrow> error + (bool \<times> globals \<times> event list)" where
  "invoke_call c g =
     send_wireless_alert (call_platform c) (call_type c) (call_sensor_data c)
       (call_confidence c) (g\<lparr>system_tick := call_tick c\<rparr>)"

text \<open>The returned flag, the value of \<^verbatim>\<open>last_alert_time\<close> and the outside calls
  after each invocation; the run ends at an undefined conversion.\<close>

fun run_calls :: "alert_call list \<Rightarrow> globals \<Rightarrow> (bool \<times> 32 word \<times> event list) list" where
  "run_calls [] g = []"
| "run_calls (c # cs) g =
     (case invoke_call c g of
        Inl e \<Rightarrow> []
      | Inr (ok, g', ev) \<Rightarrow> (ok, last_alert_time g', ev) # run_calls cs g')"

subsection \<open>The statistics buffer (utils.h)\<close>

text \<open>\<^verbatim>\<open>utils.h\<close> declares the structure \<^verbatim>\<open>circular_buffer_t\<close> and the prototypes
  of its operations; their bodies are not among the sources. The structure below is the
  declared one (\<^verbatim>\<open>buffer\<close>, \<^verbatim>\<open>size\<close>, \<^verbatim>\<open>head\<close>, \<^verbatim>\<open>tail\<close>, \<^verbatim>\<open>count\<close>,
  each prefixed with \<open>cb_\<close>); the storage the pointer refers to is a list of
  \<open>size\<close> floats. The operations are modelled from the specification (section 4.1) and
  the header's comments.\<close>

record circular_buffer_t =
  cb_buffer :: "real list"
  cb_size :: nat
  cb_head :: nat
  cb_tail :: nat
  cb_count :: nat

text \<open>Modelled from the spec: the body of \<^verbatim>\<open>circular_buffer_init\<close> is missing; an
  initialised buffer is empty, over the given storage and capacity.\<close>

definition circular_buffer_init :: "real list \<Rightarrow> nat \<Rightarrow> circular_buffer_t" where
  "circular_buffer_init buffer n =
     \<lparr>cb_buffer = buffer, cb_size = n, cb_head = 0, cb_tail = 0, cb_count = 0\<rparr>"

text \<open>Modelled from the spec: the body of \<^verbatim>\<open>circular_buffer_full\<close> is missing; full
  means count equal to capacity.\<close>

definition circular_buffer_full :: "circular_buffer_t \<Rightarrow> bool" where
  "circular_buffer_full cb = (cb_count cb = cb_size cb)"

text \<open>Modelled from the spec: the body of \<^verbatim>\<open>circular_buffer_empty\<close> is missing.\<close>

definition circular_buffer_empty :: "circular_buffer_t \<Rightarrow> bool" where
  "circular_buffer_empty cb = (cb_count cb = 0)"

text \<open>Modelled from the spec: the body of \<^verbatim>\<open>circular_buffer_push\<close> is missing;
  "fails (no-op, returns false) when count == capacity, else appends at the logical
  tail".\<close>

definition circular_buffer_push :: "circular_buffer_t \<Rightarrow> real \<Rightarrow> bool \<times> circular_buffer_t" where
  "circular_buffer_push cb v =
     (if cb_count cb = cb_size cb then (False, cb)
      else (True, cb\<lparr>cb_buffer := (cb_buffer cb)[cb_tail cb := v],
                       cb_tail := (cb_tail cb + 1) mod cb_size cb,
                       cb_count := cb_count cb + 1\<rparr>))"

text \<open>Modelled from the spec: the body of \<^verbatim>\<open>circular_buffer_pop\<close> is missing; "fails
  when empty, else removes and returns the logical head". \<open>None\<close> is the returned
  false, \<open>Some v\<close> is true with \<open>v\<close> stored through the pointer.\<close>

definition circular_buffer_pop :: "circular_buffer_t \<Rightarrow> real option \<times> circular_buffer_t" where
  "circular_buffer_pop cb =
     (if cb_count cb = 0 then (None, cb)
      else (Some (cb_buffer cb ! cb_head cb),
            cb\<lparr>cb_head := (cb_head cb + 1) mod cb_size cb,
               cb_count := cb_count cb - 1\<rparr>))"

text \<open>Modelled from the spec: the "ordered sequence of floats" the buffer holds, from
  the logical head to the logical tail.\<close>

definition cb_contents :: "circular_buffer_t \<Rightarrow> real list" where
  "cb_contents cb =
     map (\<lambda>i. cb_buffer cb ! ((cb_head cb + i) mod cb_size cb)) [0..<cb_count cb]"

text \<open>Modelled from the spec: the body of \<^verbatim>\<open>circular_buffer_mean\<close> is missing; "0 when
  empty, else computed over the current contents".\<close>

definition circular_buffer_mean :: "circular_buffer_t \<Rightarrow> real" where
  "circular_buffer_mean cb =
     (if cb_count cb = 0 then 0
      else sum_list (cb_contents cb) / real (cb_count cb))"

text \<open>Modelled from the spec: the body of \<^verbatim>\<open>circular_buffer_stddev\<close> is missing; "0
  when empty", else the population standard deviation of the contents.\<close>

definition circular_buffer_stddev :: "circular_buffer_t \<Rightarrow> real" where
  "circular_buffer_stddev cb =
     (if cb_count cb = 0 then 0
      else sqrt (sum_list (map (\<lambda>x. (x - circular_buffer_mean cb)\<^sup>2) (cb_contents cb))
                 / real (cb_count cb)))"

text \<open>Modelled from the spec: the well-formed buffers, those reachable from
  \<open>circular_buffer_init\<close> over storage of the stated capacity: count at most capacity,
  the head inside the storage, the tail \<open>count\<close> places after the head.\<close>

definition cb_inv :: "circular_buffer_t \<Rightarrow> bool" where
  "cb_inv cb \<longleftrightarrow>
     length (cb_buffer cb) = cb_size cb \<and> cb_count cb \<le> cb_size cb
     \<and> (cb_size cb = 0 \<or> cb_head cb < cb_size cb)
     \<and> cb_tail cb = (cb_head cb + cb_count cb) mod cb_size cb"

text \<open>Modelled from the spec: the scenario "pushing capacity + 1 values": the values are
  pushed in turn and the returned flags collected.\<close>

fun push_all :: "real list \<Rightarrow> circular_buffer_t \<Rightarrow> bool list \<times> circular_buffer_t" where
  "push_all [] cb = ([], cb)"
| "push_all (v # vs) cb =
     (case circular_buffer_push cb v of (ok, cb') \<Rightarrow>
        (case push_all vs cb' of (oks, cb'') \<Rightarrow> (ok # oks, cb'')))"

text \<open>Modelled from the spec: the scenario "popping capacity times then once more": \<open>n\<close>
  pops in turn, their results collected.\<close>

fun pop_n :: "nat \<Rightarrow> circular_buffer_t \<Rightarrow> real option list \<times> circular_buffer_t" where
  "pop_n 0 cb = ([], cb)"
| "pop_n (Suc n) cb =
     (case circular_buffer_pop cb of (r, cb') \<Rightarrow>
        (case pop_n n cb' of (rs, cb'') \<Rightarrow> (r # rs, cb'')))"

subsection \<open>The quantiser in the specification's words\<close>

text \<open>For comparison with \<open>quantize\<close> only; these two follow the specification
  (section 4.3), not the source: rounding to nearest with halves away from zero, and
  \<open>clamp(round(f / scale) + zero_point, -128, 127)\<close>.\<close>

definition spec_round :: "real \<Rightarrow> int" where
  "spec_round x = (if 0 \<le> x then \<lfloor>x + 1 / 2\<rfloor> else - \<lfloor>- x + 1 / 2\<rfloor>)"

definition spec_quantize :: "real \<Rightarrow> int \<Rightarrow> real \<Rightarrow> 8 word" where
  "spec_quantize scale zero_point f =
     word_of_int (max (- 128) (min 127 (spec_round (f / scale) + zero_point)))"

subsection \<open>Concrete inputs used in the examples\<close>

text \<open>The sample of the specification's end-to-end scenario, and an engine whose
  tensors both have scale 1/100 and zero point 0 and whose output is always
  \<open>[5, 35, 60]\<close>.\<close>

definition example_sample :: sensor_data_t where
  "example_sample = \<lparr>soil_moisture = 20, temperature = 35, humidity = 80,
     audio_energy = 9 / 10, timestamp = 0\<rparr>"

definition example_engine :: ml_engine where
  "example_engine = \<lparr>initialized = True, input_scale = 1 / 100, input_zero_point = 0,
     output_scale = 1 / 100, output_zero_point = 0, invoke = (\<lambda>_. Some [5, 35, 60])\<rparr>"

text \<open>A platform for the examples: the access point is reported connected at the
  third poll, every POST is answered 200, floats print in fixed notation with the last
  digit rounded, and the uninitialised local happens to hold the values
  \<open>12.3, -4.5, 67.8, 0.12\<close>.\<close>

definition example_fmt :: "nat \<Rightarrow> real \<Rightarrow> string" where
  "example_fmt d x =
     (let n = nat \<lfloor>\<bar>x\<bar> * 10 ^ d + 1 / 2\<rfloor>;
          frac = dec (n mod 10 ^ d)
      in (if x < 0 then ''-'' else []) @ dec (n div 10 ^ d) @ ''.''
           @ replicate (d - length frac) (CHR ''0'') @ frac)"

definition example_platform :: platform where
  "example_platform =
     \<lparr>add_profile_ok = True,
      profile_connected = (\<lambda>retry. retry = 2),
      http_init_ok = True,
      http_post = (\<lambda>body len. (True, 200)),
      fmt_1f = example_fmt 1,
      fmt_2f = example_fmt 2,
      uninit_sensor_data = \<lparr>soil_moisture = 123 / 10, temperature = - 45 / 10,
        humidity = 678 / 10, audio_energy = 12 / 100, timestamp = 7\<rparr>\<rparr>"

text \<open>The same platform with a transport that answers every POST with 503.\<close>

definition failing_platform :: platform where
  "failing_platform = example_platform\<lparr>http_post := (\<lambda>body len. (True, 503))\<rparr>"

text \<open>Four invocations from boot: a water-stress alert at 300000 ms, a pest-risk alert
  1000 ms later, a low-battery alert at 700000 ms over the failing transport, and a
  pest-risk alert at 800000 ms.\<close>

definition example_calls :: "alert_call list" where
  "example_calls =
     [\<lparr>call_tick = 300000, call_platform = example_platform,
       call_type = ALERT_WATER_STRESS, call_sensor_data = Some example_sample,
       call_confidence = 85 / 100\<rparr>,
      \<lparr>call_tick = 301000, call_platform = example_platform,
       call_type = ALERT_PEST_RISK, call_sensor_data = Some example_sample,
       call_confidence = 85 / 100\<rparr>,
      \<lparr>call_tick = 700000, call_platform = failing_platform,
       call_type = ALERT_LOW_BATTERY, call_sensor_data = None,
       call_confidence = 0\<rparr>,
      \<lparr>call_tick = 800000, call_platform = example_platform,
       call_type = ALERT_PEST_RISK, call_sensor_data = Some example_sample,
       call_confidence = 85 / 100\<rparr>]"

text \<open>Three invocations inside the first 300000 ms after boot, one of each kind the
  firmware raises.\<close>

definition boot_calls :: "alert_call list" where
  "boot_calls =
     [\<lparr>call_tick = 0, call_platform = example_platform,
       call_type = ALERT_LOW_BATTERY, call_sensor_data = None, call_confidence = 0\<rparr>,
      \<lparr>call_tick = 30000, call_platform = example_platform,
       call_type = ALERT_WATER_STRESS, call_sensor_data = Some example_sample,
       call_confidence = 85 / 100\<rparr>,
      \<lparr>call_tick = 299999, call_platform = example_platform,
       call_type = ALERT_PEST_RISK, call_sensor_data = Some example_sample,
       call_confidence = 85 / 100\<rparr>]"

section \<open>Properties\<close>

subsection \<open>Auxiliary facts: truncation and int8\<close>

lemma spec_round_close: "\<bar>real_of_int (spec_round x) - x\<bar> \<le> 1 / 2"
proof (cases "0 \<le> x")
  case True
  define n where "n = \<lfloor>x + 1 / 2\<rfloor>"
  have "real_of_int n \<le> x + 1 / 2" and "x + 1 / 2 < real_of_int n + 1"
    unfolding n_def by linarith+
  moreover have "spec_round x = n"
    using True by (simp add: spec_round_def n_def)
  ultimately show ?thesis by linarith
next
  case False
  define n where "n = \<lfloor>- x + 1 / 2\<rfloor>"
  have "real_of_int n \<le> - x + 1 / 2" and "- x + 1 / 2 < real_of_int n + 1"
    unfolding n_def by linarith+
  moreover have "spec_round x = - n"
    using False by (simp add: spec_round_def n_def)
  ultimately show ?thesis by linarith
qed

lemma trunc_toward_zero_close: "\<bar>real_of_int (trunc_toward_zero x) - x\<bar> < 1"
proof (cases "0 \<le> x")
  case True
  define n where "n = \<lfloor>x\<rfloor>"
  have "real_of_int n \<le> x" and "x < real_of_int n + 1"
    unfolding n_def by linarith+
  moreover have "trunc_toward_zero x = n"
    using True by (simp add: trunc_toward_zero_def n_def)
  ultimately show ?thesis by linarith
next
  case False
  define n where "n = \<lceil>x\<rceil>"
  have "real_of_int n - 1 < x" and "x \<le> real_of_int n"
    unfolding n_def by linarith+
  moreover have "trunc_toward_zero x = n"
    using False by (simp add: trunc_toward_zero_def n_def)
  ultimately show ?thesis by linarith
qed

lemma trunc_toward_zero_nonneg:
  "0 \<le> x \<Longrightarrow> 0 \<le> trunc_toward_zero x \<and> real_of_int (trunc_toward_zero x) \<le> x"
  by (simp add: trunc_toward_zero_def)

lemma trunc_toward_zero_neg:
  "x < 0 \<Longrightarrow> trunc_toward_zero x \<le> 0 \<and> x \<le> real_of_int (trunc_toward_zero x)"
  by (simp add: trunc_toward_zero_def)

lemma sint_int8_of_int: "- 128 \<le> t \<Longrightarrow> t \<le> 127 \<Longrightarrow> sint (word_of_int t :: 8 word) = t"
  by (simp add: int_word_sint)

lemma float_to_int8_Some:
  "float_to_int8 x = Some q \<longleftrightarrow>
     - 128 \<le> trunc_toward_zero x \<and> trunc_toward_zero x \<le> 127 \<and> sint q = trunc_toward_zero x"
proof -
  define t where "t = trunc_toward_zero x"
  have wq: "word_of_int t = q" if "sint q = t"
    using that by auto
  show ?thesis
    unfolding float_to_int8_def Let_def t_def [symmetric]
    using wq by (auto simp: sint_int8_of_int)
qed

subsection \<open>Auxiliary facts: binary32 rounding\<close>

lemma bits_nonneg: "0 \<le> bits n"
  by (induction n rule: bits.induct) (subst bits.simps, simp)

lemma bits_upper: "n < 2 ^ nat (bits n)"
proof (induction n rule: bits.induct)
  case (1 n)
  show ?case
  proof (cases "n \<le> 0")
    case True
    then show ?thesis by (subst bits.simps) simp
  next
    case False
    then have IH: "n div 2 < 2 ^ nat (bits (n div 2))"
      using 1 by simp
    have "nat (1 + bits (n div 2)) = Suc (nat (bits (n div 2)))"
      using bits_nonneg [of "n div 2"] by simp
    moreover have "n < 2 * (n div 2 + 1)" by presburger
    moreover have "bits n = 1 + bits (n div 2)"
      using False by (subst bits.simps) simp
    ultimately show ?thesis
      using IH by simp
  qed
qed

lemma bits_lower: "0 < n \<Longrightarrow> 2 ^ nat (bits n - 1) \<le> n"
proof (induction n rule: bits.induct)
  case (1 n)
  show ?case
  proof (cases "n = 1")
    case True
    then show ?thesis
      by (subst bits.simps, subst bits.simps) simp
  next
    case False
    with 1(2) have pos: "0 < n div 2" by linarith
    then have IH: "2 ^ nat (bits (n div 2) - 1) \<le> n div 2"
      using 1 by simp
    have b1: "1 \<le> bits (n div 2)"
      using pos bits_nonneg [of "n div 2 div 2"] by (subst bits.simps) simp
    then have "nat (1 + bits (n div 2) - 1) = Suc (nat (bits (n div 2) - 1))"
      by simp
    moreover have "2 * (n div 2) \<le> n" by presburger
    moreover have "bits n = 1 + bits (n div 2)"
      using 1(2) by (subst bits.simps) simp
    ultimately show ?thesis
      using IH by simp
  qed
qed

lemma pow2_powr: "pow2 e = 2 powr real_of_int e"
  by (simp add: pow2_def powr_int)

lemma pow2_pos: "0 < pow2 e"
  by (simp add: pow2_powr)

lemma pow2_diff: "pow2 (e - k) = pow2 e / pow2 k"
  by (simp add: pow2_powr powr_diff)

lemma floor_log2_le: "0 < x \<Longrightarrow> pow2 (floor_log2 x) \<le> x"
proof (cases "1 \<le> x")
  case True
  then have n: "0 < \<lfloor>x\<rfloor>" by simp
  have b: "1 \<le> bits \<lfloor>x\<rfloor>"
    using n bits_nonneg [of "\<lfloor>x\<rfloor> div 2"] by (subst bits.simps) simp
  have "real_of_int (2 ^ nat (bits \<lfloor>x\<rfloor> - 1)) \<le> real_of_int \<lfloor>x\<rfloor>"
    using bits_lower [OF n] by (simp only: of_int_le_iff)
  also have "\<dots> \<le> x" by simp
  finally show ?thesis
    using True b by (simp add: floor_log2_def pow2_def)
next
  case False
  assume pos: "0 < x"
  let ?k = "bits (\<lceil>1 / x\<rceil> - 1)"
  have "\<lceil>1 / x\<rceil> - 1 < 2 ^ nat ?k" by (rule bits_upper)
  then have "\<lceil>1 / x\<rceil> \<le> 2 ^ nat ?k" by simp
  then have "real_of_int \<lceil>1 / x\<rceil> \<le> real_of_int (2 ^ nat ?k)"
    by (simp only: of_int_le_iff)
  then have "real_of_int \<lceil>1 / x\<rceil> \<le> 2 ^ nat ?k"
    by (simp only: of_int_power of_int_numeral)
  moreover have "1 / x \<le> real_of_int \<lceil>1 / x\<rceil>"
    by (rule le_of_int_ceiling)
  ultimately have "1 / x \<le> 2 ^ nat ?k" by (rule order_trans [rotated])
  then have "1 / 2 ^ nat ?k \<le> x"
    using pos by (simp add: field_simps)
  moreover have "pow2 (- ?k) = 1 / 2 ^ nat ?k"
    using bits_nonneg [of "\<lceil>1 / x\<rceil> - 1"] by (auto simp: pow2_def)
  ultimately show ?thesis
    using False by (simp add: floor_log2_def)
qed

lemma round_half_even_close: "\<bar>real_of_int (round_half_even z) - z\<bar> \<le> 1 / 2"
proof -
  define n where "n = \<lfloor>z\<rfloor>"
  have "real_of_int n \<le> z" and "z < real_of_int n + 1"
    unfolding n_def by linarith+
  then show ?thesis
    unfolding round_half_even_def Let_def n_def [symmetric] by (auto simp: abs_le_iff)
qed

lemma f32_ulp_pos: "0 < f32_ulp x"
  by (simp add: f32_ulp_def pow2_pos)

lemma f32_ulp_le: "x \<noteq> 0 \<Longrightarrow> f32_ulp x \<le> \<bar>x\<bar> / 2 ^ 23 \<or> f32_ulp x = 1 / 2 ^ 149"
proof -
  assume "x \<noteq> 0"
  then have pos: "0 < \<bar>x\<bar>" by simp
  show ?thesis
  proof (cases "floor_log2 \<bar>x\<bar> \<le> - 126")
    case True
    then have "f32_ulp x = pow2 (- 149)" by (simp add: f32_ulp_def max_def)
    then show ?thesis by (simp add: pow2_def)
  next
    case False
    then have "f32_ulp x = pow2 (floor_log2 \<bar>x\<bar>) / pow2 23"
      by (simp add: f32_ulp_def max_def pow2_diff)
    also have "\<dots> \<le> \<bar>x\<bar> / pow2 23"
      using floor_log2_le [OF pos] pow2_pos [of 23] by (simp add: divide_right_mono)
    finally show ?thesis by (simp add: pow2_def)
  qed
qed

lemma f32_round_error: "\<bar>f32_round x - x\<bar> \<le> \<bar>x\<bar> / 2 ^ 24 + 1 / 2 ^ 150"
proof (cases "x = 0")
  case True
  then show ?thesis by (simp add: f32_round_def)
next
  case False
  define u where "u = f32_ulp x"
  have u: "0 < u" unfolding u_def by (rule f32_ulp_pos)
  have "f32_round x - x = (real_of_int (round_half_even (x / u)) - x / u) * u"
    using False u by (simp add: f32_round_def u_def [symmetric] field_simps)
  then have "\<bar>f32_round x - x\<bar> = \<bar>real_of_int (round_half_even (x / u)) - x / u\<bar> * u"
    using u by (simp add: abs_mult)
  also have "\<dots> \<le> 1 / 2 * u"
    using round_half_even_close [of "x / u"] u by (intro mult_right_mono) simp_all
  finally have half: "\<bar>f32_round x - x\<bar> \<le> u / 2" by simp
  from f32_ulp_le [OF False] show ?thesis
  proof
    assume "f32_ulp x \<le> \<bar>x\<bar> / 2 ^ 23"
    with half show ?thesis unfolding u_def by simp
  next
    assume "f32_ulp x = 1 / 2 ^ 149"
    with half have "\<bar>f32_round x - x\<bar> \<le> 1 / 2 ^ 150"
      unfolding u_def by simp
    moreover have "0 \<le> \<bar>x\<bar> / 2 ^ 24" by simp
    ultimately show ?thesis by linarith
  qed
qed

lemma floor_log2_less: "0 < x \<Longrightarrow> x < 2 * pow2 (floor_log2 x)"
proof (cases "1 \<le> x")
  case True
  define n where "n = \<lfloor>x\<rfloor>"
  have n: "0 < n" "x < real_of_int n + 1"
    using True unfolding n_def by linarith+
  have b: "1 \<le> bits n"
    using n(1) by (subst bits.simps) (simp add: bits_nonneg)
  have "n + 1 \<le> 2 ^ nat (bits n)"
    using bits_upper [of n] by simp
  then have "real_of_int (n + 1) \<le> real_of_int (2 ^ nat (bits n))"
    by (simp only: of_int_le_iff)
  then have "real_of_int n + 1 \<le> 2 ^ nat (bits n)"
    by simp
  also have "(2::real) ^ nat (bits n) = 2 * 2 ^ nat (bits n - 1)"
    using b by (simp add: power_Suc [symmetric] Suc_nat_eq_nat_zadd1 del: power_Suc)
  finally have "x < 2 * 2 ^ nat (bits n - 1)"
    using n(2) by linarith
  then show ?thesis
    using True b unfolding n_def by (simp add: floor_log2_def pow2_def)
next
  case False
  assume pos: "0 < x"
  define n where "n = \<lceil>1 / x\<rceil> - 1"
  have x1: "1 < 1 / x" using False pos by simp
  then have n: "0 < n" "real_of_int n < 1 / x"
    unfolding n_def by linarith+
  have b: "1 \<le> bits n"
    using n(1) by (subst bits.simps) (simp add: bits_nonneg)
  have "2 ^ nat (bits n - 1) \<le> n"
    using bits_lower [OF n(1)] .
  then have "real_of_int (2 ^ nat (bits n - 1)) \<le> real_of_int n"
    by (simp only: of_int_le_iff)
  then have "(2::real) ^ nat (bits n - 1) \<le> real_of_int n"
    by (simp only: of_int_power of_int_numeral)
  with n(2) have "(2::real) ^ nat (bits n - 1) < 1 / x"
    by linarith
  then have "x * 2 ^ nat (bits n - 1) < 1"
    using pos by (simp add: field_simps)
  moreover have "(2::real) ^ nat (bits n) = 2 * 2 ^ nat (bits n - 1)"
    using b by (simp add: power_Suc [symmetric] Suc_nat_eq_nat_zadd1 del: power_Suc)
  ultimately have "x * 2 ^ nat (bits n) < 2"
    by simp
  then have "x < 2 / 2 ^ nat (bits n)"
    by (simp add: field_simps)
  then show ?thesis
    using False b by (simp add: floor_log2_def pow2_def n_def [symmetric])
qed

lemma to_f32_small: "\<bar>x\<bar> \<le> 2 ^ 120 \<Longrightarrow> to_f32 x = Some (f32_round x)"
proof -
  assume x: "\<bar>x\<bar> \<le> 2 ^ 120"
  have "\<bar>f32_round x\<bar> \<le> \<bar>x\<bar> + \<bar>x\<bar> / 2 ^ 24 + 1 / 2 ^ 150"
    using f32_round_error [of x] by linarith
  also have "\<dots> \<le> 2 ^ 120 + 2 ^ 120 / 2 ^ 24 + 1 / 2 ^ 150"
    using x by (intro add_mono divide_right_mono) simp_all
  also have "\<dots> \<le> FLT_MAX"
    by (simp add: FLT_MAX_def)
  finally show ?thesis by (simp add: to_f32_def)
qed

lemma f32_round_within:
  assumes "\<bar>x\<bar> \<le> K" and "K / 2 ^ 24 + 1 / 2 ^ 150 \<le> c"
  shows "\<bar>f32_round x - x\<bar> \<le> c"
proof -
  have "\<bar>f32_round x - x\<bar> \<le> \<bar>x\<bar> / 2 ^ 24 + 1 / 2 ^ 150"
    by (rule f32_round_error)
  also have "\<dots> \<le> K / 2 ^ 24 + 1 / 2 ^ 150"
    using assms(1) by (intro add_mono divide_right_mono) simp_all
  finally show ?thesis using assms(2) by (rule order_trans)
qed

text \<open>The rounding evaluated: 0.9 and 0.01 as floats, a tie to even above \<open>2 ^ 24\<close>,
  the subnormal range, and the overflow threshold.\<close>

lemma f32_round_examples:
  "f32_round (9 / 10) = 7549747 / 8388608"
  "f32_round (1 / 100) = 5368709 / 536870912"
  "f32_round 16777217 = 16777216" "f32_round 16777219 = 16777220"
  "f32_round (1 / 2 ^ 150) = 0" "f32_round (3 / 2 ^ 150) = 1 / 2 ^ 148"
  "to_f32 (2 ^ 128) = None" "to_f32 (2 ^ 128 - 2 ^ 103 - 1) = Some FLT_MAX"
  by code_simp+

subsection \<open>Auxiliary facts: the quantiser and the dequantiser\<close>

lemma quantize_Some_iff:
  "quantize scale zero_point f = Some q \<longleftrightarrow>
     (\<exists>y. quantize_operand scale zero_point f = Some y
          \<and> - 128 \<le> trunc_toward_zero y \<and> trunc_toward_zero y \<le> 127
          \<and> sint q = trunc_toward_zero y)"
  by (cases "quantize_operand scale zero_point f") (simp_all add: quantize_def float_to_int8_Some)

lemma sint_int8_range: "- 128 \<le> sint (q :: 8 word) \<and> sint q \<le> 127"
  using sint_ge [of q] sint_lt [of q] by simp

text \<open>For an int8 zero point and a normal binary32 scale the float that the code
  computes is defined and within \<open>scale / 2 ^ 14\<close> of the exact value, so the floats
  of two int8 scores are strictly ordered as the scores are.\<close>

lemma dequantize_close:
  assumes fl_s: "to_f32 scale = Some scale"
    and s_lo: "1 / 2 ^ 126 \<le> scale" and s_hi: "scale \<le> 2 ^ 100"
    and zp_lo: "- 128 \<le> zero_point" and zp_hi: "zero_point \<le> 127"
  shows "\<exists>d. dequantize scale zero_point q = Some d
           \<and> \<bar>d - dequantize_exact scale zero_point q\<bar> \<le> scale / 2 ^ 14"
proof -
  have spos: "0 < scale"
    using s_lo by (rule less_le_trans [rotated]) simp
  define m where "m = sint q - zero_point"
  have "- 255 \<le> m" and "m \<le> 255"
    using sint_int8_range [of q] zp_lo zp_hi unfolding m_def by linarith+
  then have mr: "\<bar>real_of_int m\<bar> \<le> 255"
    by linarith
  have m32: "int32_range zero_point \<and> int32_range m"
    using \<open>- 255 \<le> m\<close> \<open>m \<le> 255\<close> zp_lo zp_hi by (simp add: int32_range_def)
  define M where "M = f32_of_int m"
  have eM: "\<bar>M - real_of_int m\<bar> \<le> 1 / 2 ^ 16"
    unfolding M_def f32_of_int_def by (rule f32_round_within [OF mr]) simp
  have Mabs: "\<bar>M\<bar> \<le> 256"
    using eM mr unfolding abs_le_iff abs_less_iff by (simp; linarith)
  have p: "\<bar>M * scale\<bar> \<le> 256 * scale"
    using Mabs spos by (simp add: abs_mult mult_right_mono)
  define d where "d = f32_round (M * scale)"
  have ed: "\<bar>d - M * scale\<bar> \<le> 256 * scale / 2 ^ 24 + 1 / 2 ^ 150"
    unfolding d_def by (rule f32_round_within [OF p]) simp
  have "\<bar>M * scale\<bar> \<le> 2 ^ 120"
    using p s_hi unfolding abs_le_iff abs_less_iff by (simp; linarith)
  then have "f32_mul M scale = Some d"
    using to_f32_small [of "M * scale"] by (simp add: f32_mul_def d_def)
  then have dd: "dequantize scale zero_point q = Some d"
    using m32 fl_s by (simp add: dequantize_def m_def [symmetric] M_def)
  have t1: "\<bar>(M - real_of_int m) * scale\<bar> \<le> 1 / 2 ^ 16 * scale"
    using eM spos by (simp only: abs_mult abs_of_pos [OF spos] mult_right_mono less_imp_le)
  have tiny: "1 / 2 ^ 150 \<le> scale / 2 ^ 24"
    using s_lo by (simp add: field_simps)
  have "d - real_of_int m * scale = (d - M * scale) + (M - real_of_int m) * scale"
    by (simp add: algebra_simps)
  then have "\<bar>d - real_of_int m * scale\<bar>
      = \<bar>(d - M * scale) + (M - real_of_int m) * scale\<bar>"
    by (rule arg_cong)
  also have "\<dots> \<le> \<bar>d - M * scale\<bar> + \<bar>(M - real_of_int m) * scale\<bar>"
    by (rule abs_triangle_ineq)
  also have "\<dots> \<le> (256 * scale / 2 ^ 24 + scale / 2 ^ 24) + 1 / 2 ^ 16 * scale"
    using ed t1 tiny by (simp; linarith)
  also have "\<dots> \<le> scale / 2 ^ 14"
    using spos by (simp add: field_simps)
  finally have "\<bar>d - dequantize_exact scale zero_point q\<bar> \<le> scale / 2 ^ 14"
    by (simp only: dequantize_exact_def m_def)
  with dd show ?thesis by blast
qed

lemma dequantize_order:
  assumes fl_s: "to_f32 scale = Some scale"
    and s_lo: "1 / 2 ^ 126 \<le> scale" and s_hi: "scale \<le> 2 ^ 100"
    and zp_lo: "- 128 \<le> zero_point" and zp_hi: "zero_point \<le> 127"
    and less: "sint p < sint q"
  shows "\<exists>a b. dequantize scale zero_point p = Some a
           \<and> dequantize scale zero_point q = Some b \<and> a < b"
proof -
  have spos: "0 < scale"
    using s_lo by (rule less_le_trans [rotated]) simp
  obtain a where a: "dequantize scale zero_point p = Some a"
    and ea: "\<bar>a - dequantize_exact scale zero_point p\<bar> \<le> scale / 2 ^ 14"
    using dequantize_close [OF fl_s s_lo s_hi zp_lo zp_hi, of p] by blast
  obtain b where b: "dequantize scale zero_point q = Some b"
    and eb: "\<bar>b - dequantize_exact scale zero_point q\<bar> \<le> scale / 2 ^ 14"
    using dequantize_close [OF fl_s s_lo s_hi zp_lo zp_hi, of q] by blast
  define mp where "mp = sint p - zero_point"
  define mq where "mq = sint q - zero_point"
  have "1 \<le> real_of_int mq - real_of_int mp"
    using less unfolding mp_def mq_def by linarith
  then have "1 * scale \<le> (real_of_int mq - real_of_int mp) * scale"
    using spos by (intro mult_right_mono) simp_all
  then have gap: "scale \<le> dequantize_exact scale zero_point q
      - dequantize_exact scale zero_point p"
    unfolding dequantize_exact_def mp_def [symmetric] mq_def [symmetric]
    by (simp add: algebra_simps)
  have "scale / 2 ^ 14 + scale / 2 ^ 14 < scale"
    using spos by (simp add: field_simps)
  with gap ea eb have "a < b"
    unfolding abs_le_iff by linarith
  with a b show ?thesis by blast
qed

text \<open>The quantiser and the dequantiser evaluated.\<close>

lemma quantize_examples:
  "quantize_operand (1 / 2) 0 (3 / 4) = Some (3 / 2)"
  "quantize_operand (5368709 / 536870912) 0 (7549747 / 8388608) = Some 90"
  "quantize_operand (5 / 100) 0 (65 / 100) = Some (13631487 / 1048576)"
  "quantize_operand (1 / 2) 3 (- 7 / 4) = Some (- 1 / 2)"
  "quantize_operand (1 / 2) 0 100 = Some 200"
  by code_simp+

lemma trunc_examples:
  "trunc_toward_zero (3 / 2) = 1" "trunc_toward_zero 90 = 90"
  "trunc_toward_zero (13631487 / 1048576) = 12" "trunc_toward_zero (- (1 / 2)) = 0"
  "trunc_toward_zero 200 = 200"
  "trunc_toward_zero ((7549747 / 8388608) / (5368709 / 536870912) + 0) = 89"
  by code_simp+

lemma roundtrip_example:
  "to_f32 (6422947 / 2097152) = Some (6422947 / 2097152)"
  "to_f32 (825439 / 67108864) = Some (825439 / 67108864)"
  "to_f32 (123 / 10000) = Some (825439 / 67108864)"
  "spec_round ((6422947 / 2097152) / (825439 / 67108864)) = 249"
  "quantize_operand (825439 / 67108864) (- 128) (6422947 / 2097152) = Some (7929855 / 65536)"
  "trunc_toward_zero (7929855 / 65536) = 120"
  "f32_mul (f32_of_int 248) (825439 / 67108864) = Some (199911 / 65536)"
  by code_simp+

lemma roundtrip_example_values:
  "quantize (825439 / 67108864) (- 128) (6422947 / 2097152) = Some 120"
  "dequantize (825439 / 67108864) (- 128) 120 = Some (199911 / 65536)"
  by (simp_all add: quantize_def dequantize_def int32_range_def roundtrip_example
      float_to_int8_def)

lemma features_quantized:
  "map (quantize (1 / 100) 0) [20 / 100, (35 - 10) / 40, 80 / 100, 9 / 10]
     = [Some 20, Some 62, Some 80, Some 90]"
  by code_simp

subsection \<open>Auxiliary facts: the three-element output\<close>

lemma list3: "length xs = 3 \<Longrightarrow> \<exists>a b c. xs = [a, b, c]"
  by (cases xs; simp; cases "tl xs"; simp; cases "tl (tl xs)"; auto)

lemma find_max_3:
  "find_max [a, b, c] =
     (if sint b > sint a
      then (if sint c > sint b then (c, 2) else (b, 1))
      else (if sint c > sint a then (c, 2) else (a, 0)))"
  by (simp add: find_max_def max_step_def upt_rec numeral_3_eq_3)

lemma less_3_cases: "j < (3::nat) \<longleftrightarrow> j = 0 \<or> j = 1 \<or> j = 2"
  by auto

lemma all_less_3: "(\<forall>j<(3::nat). P j) \<longleftrightarrow> P 0 \<and> P 1 \<and> P 2"
  by (auto simp: less_3_cases)

lemma find_max_first_argmax:
  assumes "length output_data = 3"
  shows "\<exists>k<3. find_max output_data = (output_data ! k, k)
           \<and> (\<forall>j<3. sint (output_data ! j) \<le> sint (output_data ! k))
           \<and> (\<forall>j<k. sint (output_data ! j) < sint (output_data ! k))"
proof -
  obtain a b c where xs: "output_data = [a, b, c]"
    using list3 [OF assms] by blast
  show ?thesis
    unfolding xs find_max_3 all_less_3
    by (auto simp: less_3_cases less_2_cases_iff)
qed


lemma ml_output_result_3:
  "ml_output_result scale zp [a, b, c] it =
     \<lparr>predicted_class = int (snd (find_max [a, b, c])),
      confidence = dequantize_exact scale zp (fst (find_max [a, b, c])),
      raw_scores = [dequantize_exact scale zp a, dequantize_exact scale zp b,
        dequantize_exact scale zp c],
      inference_time_us = it\<rparr>"
  by (simp add: ml_output_result_def split_beta upt_rec numeral_3_eq_3)

lemma dequantize_exact_mono:
  "0 < scale \<Longrightarrow>
     dequantize_exact scale zp p \<le> dequantize_exact scale zp q \<longleftrightarrow> sint p \<le> sint q"
  by (simp add: dequantize_exact_def del: of_int_sint of_int_diff)

lemma dequantize_exact_strict_mono:
  "0 < scale \<Longrightarrow>
     dequantize_exact scale zp p < dequantize_exact scale zp q \<longleftrightarrow> sint p < sint q"
  by (simp add: dequantize_exact_def del: of_int_sint of_int_diff)

lemma ml_output_result_fields:
  assumes "length output_data = 3" and "find_max output_data = (output_data ! k, k)" and "k < 3"
  shows "predicted_class (ml_output_result scale zp output_data it) = int k"
    and "confidence (ml_output_result scale zp output_data it)
           = raw_scores (ml_output_result scale zp output_data it) ! k"
    and "\<forall>j<3. raw_scores (ml_output_result scale zp output_data it) ! j
           = dequantize_exact scale zp (output_data ! j)"
proof -
  obtain a b c where xs: "output_data = [a, b, c]"
    using list3 [OF assms(1)] by blast
  have k: "k = 0 \<or> k = 1 \<or> k = 2"
    using assms(3) by (simp add: less_3_cases)
  show "predicted_class (ml_output_result scale zp output_data it) = int k"
    using assms(2) unfolding xs ml_output_result_3 by simp
  show "confidence (ml_output_result scale zp output_data it)
           = raw_scores (ml_output_result scale zp output_data it) ! k"
    using assms(2) k unfolding xs ml_output_result_3 by auto
  show "\<forall>j<3. raw_scores (ml_output_result scale zp output_data it) ! j
           = dequantize_exact scale zp (output_data ! j)"
    unfolding xs ml_output_result_3 all_less_3 by simp
qed


subsection \<open>Auxiliary facts: the dispatcher\<close>

lemma rate_limited:
  "system_tick g - last_alert_time g < MIN_ALERT_INTERVAL_MS \<Longrightarrow>
     send_wireless_alert pf k sd conf g = Inr (False, g, [])"
  by (simp add: send_wireless_alert_def)

lemma ensure_connected_globals:
  "ensure_connected pf g = (ok, g1, ev) \<Longrightarrow>
     system_tick g1 = system_tick g \<and> last_alert_time g1 = last_alert_time g
     \<and> (\<not> ok \<longrightarrow> g1 = g)"
  by (auto simp: ensure_connected_def wireless_connect_def split: if_splits)

lemma ensure_connected_events:
  "ensure_connected pf g = (ok, g1, ev) \<Longrightarrow> ev = [] \<or> ev = [EV_WIFI_CONNECT]"
  by (auto simp: ensure_connected_def split: if_splits prod.splits)

lemma send_wireless_alert_not_connected:
  assumes "send_wireless_alert pf k sd conf g = Inr (ok, g', ev)"
    and "\<not> system_tick g - last_alert_time g < MIN_ALERT_INTERVAL_MS"
    and "ensure_connected pf g = (False, g1, ev1)"
  shows "\<not> ok \<and> g' = g \<and> ev = [EV_WIFI_CONNECT]"
proof -
  have "g1 = g" and "ev1 = [EV_WIFI_CONNECT]"
    using assms(3) by (auto simp: ensure_connected_def wireless_connect_def split: if_splits)
  with assms show ?thesis
    by (simp add: send_wireless_alert_def)
qed

lemma send_wireless_alert_cast_defined:
  assumes "send_wireless_alert pf k sd conf g = Inr (ok, g', ev)"
    and "\<not> system_tick g - last_alert_time g < MIN_ALERT_INTERVAL_MS"
    and "ensure_connected pf g = (True, g1, ev1)"
  shows "float_to_uint8 (conf * 100) \<noteq> None"
proof
  assume "float_to_uint8 (conf * 100) = None"
  with assms show False by (simp add: send_wireless_alert_def)
qed

lemma send_wireless_alert_no_json:
  assumes "send_wireless_alert pf k sd conf g = Inr (ok, g', ev)"
    and "\<not> system_tick g - last_alert_time g < MIN_ALERT_INTERVAL_MS"
    and "ensure_connected pf g = (True, g1, ev1)"
    and "float_to_uint8 (conf * 100) = Some c"
    and "format_alert_json pf \<lparr>alert_device_id = DEVICE_ID,
           alert_timestamp = system_tick g1, alert_type = k, alert_confidence = c,
           alert_sensor_data = (case sd of Some s \<Rightarrow> s | None \<Rightarrow> uninit_sensor_data pf)\<rparr>
           256 = (n, buf)"
    and "n \<le> 0"
  shows "\<not> ok \<and> g' = g1 \<and> ev = ev1"
  using assms by (simp add: send_wireless_alert_def Let_def)

lemma send_wireless_alert_posted:
  assumes "send_wireless_alert pf k sd conf g = Inr (ok, g', ev)"
    and "\<not> system_tick g - last_alert_time g < MIN_ALERT_INTERVAL_MS"
    and "ensure_connected pf g = (True, g1, ev1)"
    and "float_to_uint8 (conf * 100) = Some c"
    and "format_alert_json pf \<lparr>alert_device_id = DEVICE_ID,
           alert_timestamp = system_tick g1, alert_type = k, alert_confidence = c,
           alert_sensor_data = (case sd of Some s \<Rightarrow> s | None \<Rightarrow> uninit_sensor_data pf)\<rparr>
           256 = (n, buf)"
    and "\<not> n \<le> 0"
  shows "ev = ev1 @ [EV_HTTP_POST buf n] \<and> ok = send_http_alert pf buf n
         \<and> g' = (if ok then g1\<lparr>last_alert_time := system_tick g1\<rparr> else g1)"
  using assms by (auto simp: send_wireless_alert_def Let_def)

lemma send_wireless_alert_cases:
  assumes "send_wireless_alert pf k sd conf g = Inr (ok, g', ev)"
  obtains
    (limited) "system_tick g - last_alert_time g < MIN_ALERT_INTERVAL_MS"
      and "\<not> ok" and "g' = g" and "ev = []"
  | (no_connection) "\<not> ok" and "g' = g" and "ev = [EV_WIFI_CONNECT]"
  | (no_json) g1 ev1 where "\<not> ok" and "ensure_connected pf g = (True, g1, ev1)"
      and "g' = g1" and "ev = ev1"
  | (posted) g1 ev1 body len where "ensure_connected pf g = (True, g1, ev1)"
      and "ev = ev1 @ [EV_HTTP_POST body len]"
      and "ok = send_http_alert pf body len"
      and "g' = (if ok then g1\<lparr>last_alert_time := system_tick g1\<rparr> else g1)"
proof (cases "system_tick g - last_alert_time g < MIN_ALERT_INTERVAL_MS")
  case True
  then have "\<not> ok \<and> g' = g \<and> ev = []"
    using assms by (simp add: rate_limited)
  with True show ?thesis by (intro limited) simp_all
next
  case open_window: False
  obtain conn g1 ev1 where ec: "ensure_connected pf g = (conn, g1, ev1)"
    by (cases "ensure_connected pf g") auto
  show ?thesis
  proof (cases conn)
    case False
    with ec have "ensure_connected pf g = (False, g1, ev1)" by simp
    from send_wireless_alert_not_connected [OF assms open_window this]
    show ?thesis by (intro no_connection) simp_all
  next
    case True
    with ec have ec': "ensure_connected pf g = (True, g1, ev1)" by simp
    obtain c where c: "float_to_uint8 (conf * 100) = Some c"
      using send_wireless_alert_cast_defined [OF assms open_window ec'] by auto
    obtain n buf where fj: "format_alert_json pf \<lparr>alert_device_id = DEVICE_ID,
           alert_timestamp = system_tick g1, alert_type = k, alert_confidence = c,
           alert_sensor_data = (case sd of Some s \<Rightarrow> s | None \<Rightarrow> uninit_sensor_data pf)\<rparr>
           256 = (n, buf)"
      by (cases "format_alert_json pf \<lparr>alert_device_id = DEVICE_ID,
           alert_timestamp = system_tick g1, alert_type = k, alert_confidence = c,
           alert_sensor_data = (case sd of Some s \<Rightarrow> s | None \<Rightarrow> uninit_sensor_data pf)\<rparr>
           256") auto
    show ?thesis
    proof (cases "n \<le> 0")
      case True
      from send_wireless_alert_no_json [OF assms open_window ec' c fj True]
      show ?thesis by (intro no_json [OF _ ec']) simp_all
    next
      case False
      from send_wireless_alert_posted [OF assms open_window ec' c fj False]
      show ?thesis by (intro posted [OF ec']) simp_all
    qed
  qed
qed

lemma send_wireless_alert_result:
  assumes "send_wireless_alert pf k sd conf g = Inr (ok, g', ev)"
  shows "system_tick g' = system_tick g
         \<and> (ok \<longrightarrow> last_alert_time g' = system_tick g)
         \<and> (\<not> ok \<longrightarrow> last_alert_time g' = last_alert_time g)"
  using assms
  by (cases rule: send_wireless_alert_cases) (auto dest: ensure_connected_globals)

lemma send_wireless_alert_delivery:
  assumes "send_wireless_alert pf k sd conf g = Inr (ok, g', ev)"
  shows "ok \<longleftrightarrow> (\<exists>body len. ev \<noteq> [] \<and> last ev = EV_HTTP_POST body len
                      \<and> send_http_alert pf body len)"
  using assms
  by (cases rule: send_wireless_alert_cases) (auto dest: ensure_connected_events)

lemma alert_json_text_nonempty: "0 < length (alert_json_text pf alert)"
  by (simp add: alert_json_text_def)

lemma format_alert_json_fits:
  "length (alert_json_text pf alert) \<le> 2147483647 \<Longrightarrow>
     format_alert_json pf alert n
       = (int (length (alert_json_text pf alert)), take (n - 1) (alert_json_text pf alert))"
  by (simp add: format_alert_json_def Let_def)

lemma send_wireless_alert_attempt:
  assumes "\<not> system_tick g - last_alert_time g < MIN_ALERT_INTERVAL_MS"
    and "ensure_connected pf g = (True, g1, ev1)"
    and "float_to_uint8 (conf * 100) = Some c"
    and "alert = \<lparr>alert_device_id = DEVICE_ID, alert_timestamp = system_tick g1,
           alert_type = k, alert_confidence = c,
           alert_sensor_data = (case sd of Some s \<Rightarrow> s | None \<Rightarrow> uninit_sensor_data pf)\<rparr>"
    and "length (alert_json_text pf alert) \<le> 2147483647"
    and "body = take 255 (alert_json_text pf alert)"
    and "len = int (length (alert_json_text pf alert))"
  shows "send_wireless_alert pf k sd conf g =
           Inr (send_http_alert pf body len,
                (if send_http_alert pf body len then g1\<lparr>last_alert_time := system_tick g1\<rparr>
                 else g1),
                ev1 @ [EV_HTTP_POST body len])"
proof -
  have pos: "\<not> int (length (alert_json_text pf alert)) \<le> 0"
    using alert_json_text_nonempty [of pf alert] by simp
  show ?thesis
    unfolding send_wireless_alert_def
    using assms(1-3) pos format_alert_json_fits [OF assms(5), of 256]
    by (simp add: Let_def assms(4) [symmetric] assms(6,7))
qed

lemma example_connect: "connect_poll (\<lambda>retry. retry = 2) 0 10 = True"
  by code_simp

lemma example_ensure_connected:
  "ensure_connected example_platform g =
     (True, g\<lparr>wireless_connected := True\<rparr>,
      if wireless_connected g then [] else [EV_WIFI_CONNECT])"
  by (cases g) (simp add: ensure_connected_def wireless_connect_def example_platform_def example_connect)

lemma failing_ensure_connected:
  "ensure_connected failing_platform g =
     (True, g\<lparr>wireless_connected := True\<rparr>,
      if wireless_connected g then [] else [EV_WIFI_CONNECT])"
  by (cases g) (simp add: ensure_connected_def wireless_connect_def failing_platform_def
      example_platform_def example_connect)

lemma invoke_call_result:
  assumes "invoke_call c g = Inr (ok, g', ev)"
  shows "last_alert_time g' = (if ok then call_tick c else last_alert_time g)"
  using send_wireless_alert_result [OF assms [unfolded invoke_call_def]] by simp

lemma run_calls_sorted:
  "sorted (map call_tick cs) \<Longrightarrow> \<forall>c\<in>set cs. last_alert_time g \<le> call_tick c \<Longrightarrow>
     sorted (last_alert_time g # map (\<lambda>r. fst (snd r)) (run_calls cs g))"
proof (induction cs arbitrary: g)
  case Nil
  then show ?case by simp
next
  case (Cons c cs)
  show ?case
  proof (cases "invoke_call c g")
    case (Inl e)
    then show ?thesis by simp
  next
    case (Inr res)
    obtain ok g' ev where res: "res = (ok, g', ev)"
      by (cases res) auto
    have l': "last_alert_time g' = (if ok then call_tick c else last_alert_time g)"
      using invoke_call_result Inr res by blast
    have le: "last_alert_time g \<le> last_alert_time g'"
      using l' Cons.prems(2) by simp
    have later: "\<forall>d\<in>set cs. last_alert_time g' \<le> call_tick d"
      using l' Cons.prems by auto
    have "sorted (last_alert_time g' # map (\<lambda>r. fst (snd r)) (run_calls cs g'))"
      using Cons.IH [OF _ later] Cons.prems(1) by simp
    with le show ?thesis
      using Inr res by auto
  qed
qed

lemma boot_window:
  "last_alert_time g = 0 \<Longrightarrow> system_tick g < MIN_ALERT_INTERVAL_MS \<Longrightarrow>
     send_wireless_alert pf k sd conf g = Inr (False, g, [])"
  by (simp add: rate_limited)

lemma run_calls_boot_window:
  "last_alert_time g = 0 \<Longrightarrow> \<forall>c\<in>set cs. call_tick c < MIN_ALERT_INTERVAL_MS \<Longrightarrow>
     run_calls cs g = map (\<lambda>c. (False, 0, [])) cs"
proof (induction cs arbitrary: g)
  case Nil
  then show ?case by simp
next
  case (Cons c cs)
  let ?g = "g\<lparr>system_tick := call_tick c\<rparr>"
  have "invoke_call c g = Inr (False, ?g, [])"
    unfolding invoke_call_def using Cons.prems by (intro boot_window) simp_all
  moreover have "run_calls cs ?g = map (\<lambda>c. (False, 0, [])) cs"
    using Cons.prems by (intro Cons.IH) simp_all
  ultimately show ?case
    using Cons.prems(1) by simp
qed

lemma example_send_http_alert: "send_http_alert example_platform body len = True"
  by (simp add: send_http_alert_def example_platform_def)

lemma failing_send_http_alert: "send_http_alert failing_platform body len = False"
  by (simp add: send_http_alert_def failing_platform_def example_platform_def)

lemma example_text_fits:
  "length (alert_json_text example_platform
     \<lparr>alert_device_id = DEVICE_ID, alert_timestamp = 300000,
      alert_type = ALERT_WATER_STRESS, alert_confidence = 85,
      alert_sensor_data = example_sample\<rparr>) \<le> 2147483647"
  "length (alert_json_text example_platform
     \<lparr>alert_device_id = DEVICE_ID, alert_timestamp = 800000,
      alert_type = ALERT_PEST_RISK, alert_confidence = 85,
      alert_sensor_data = example_sample\<rparr>) \<le> 2147483647"
  "length (alert_json_text failing_platform
     \<lparr>alert_device_id = DEVICE_ID, alert_timestamp = 700000,
      alert_type = ALERT_LOW_BATTERY, alert_confidence = 0,
      alert_sensor_data = uninit_sensor_data failing_platform\<rparr>) \<le> 2147483647"
  by (simp_all add: alert_json_text_def failing_platform_def example_platform_def
      example_sample_def example_fmt_def dec.simps quoted_def nl_def DEVICE_ID_def)

lemma example_uint8:
  "float_to_uint8 (85 / 100 * 100) = Some 85" "float_to_uint8 (0 * 100) = Some 0"
  by (simp_all add: float_to_uint8_def trunc_toward_zero_def)

lemma example_call_1:
  "\<exists>ev. send_wireless_alert example_platform ALERT_WATER_STRESS (Some example_sample) (85 / 100)
      \<lparr>system_tick = 300000, wireless_connected = False, last_alert_time = 0\<rparr>
    = Inr (True, \<lparr>system_tick = 300000, wireless_connected = True,
                   last_alert_time = 300000\<rparr>, ev)"
  using send_wireless_alert_attempt [where pf = example_platform and k = ALERT_WATER_STRESS
      and sd = "Some example_sample" and conf = "85 / 100"
      and g = "\<lparr>system_tick = 300000, wireless_connected = False, last_alert_time = 0\<rparr>",
      OF _ example_ensure_connected example_uint8(1) refl _ refl refl]
    example_text_fits(1)
  by (simp add: example_send_http_alert MIN_ALERT_INTERVAL_MS_def)

lemma example_call_3:
  "\<exists>ev. send_wireless_alert failing_platform ALERT_LOW_BATTERY None 0
      \<lparr>system_tick = 700000, wireless_connected = True, last_alert_time = 300000\<rparr>
    = Inr (False, \<lparr>system_tick = 700000, wireless_connected = True,
                    last_alert_time = 300000\<rparr>, ev)"
  using send_wireless_alert_attempt [where pf = failing_platform and k = ALERT_LOW_BATTERY
      and sd = None and conf = 0
      and g = "\<lparr>system_tick = 700000, wireless_connected = True, last_alert_time = 300000\<rparr>",
      OF _ failing_ensure_connected example_uint8(2) refl _ refl refl]
    example_text_fits(3)
  by (simp add: failing_send_http_alert MIN_ALERT_INTERVAL_MS_def)

lemma example_call_4:
  "\<exists>ev. send_wireless_alert example_platform ALERT_PEST_RISK (Some example_sample) (85 / 100)
      \<lparr>system_tick = 800000, wireless_connected = True, last_alert_time = 300000\<rparr>
    = Inr (True, \<lparr>system_tick = 800000, wireless_connected = True,
                   last_alert_time = 800000\<rparr>, ev)"
  using send_wireless_alert_attempt [where pf = example_platform and k = ALERT_PEST_RISK
      and sd = "Some example_sample" and conf = "85 / 100"
      and g = "\<lparr>system_tick = 800000, wireless_connected = True, last_alert_time = 300000\<rparr>",
      OF _ example_ensure_connected example_uint8(1) refl _ refl refl]
    example_text_fits(2)
  by (simp add: example_send_http_alert MIN_ALERT_INTERVAL_MS_def)

lemma example_run:
  "map (\<lambda>r. (fst r, fst (snd r))) (run_calls example_calls boot_globals)
     = [(True, 300000), (False, 300000), (False, 300000), (True, 800000)]"
proof -
  obtain ev1 ev3 ev4 where
    c1: "send_wireless_alert example_platform ALERT_WATER_STRESS (Some example_sample) (85 / 100)
      \<lparr>system_tick = 300000, wireless_connected = False, last_alert_time = 0\<rparr>
    = Inr (True, \<lparr>system_tick = 300000, wireless_connected = True,
                   last_alert_time = 300000\<rparr>, ev1)"
    and c3: "send_wireless_alert failing_platform ALERT_LOW_BATTERY None 0
      \<lparr>system_tick = 700000, wireless_connected = True, last_alert_time = 300000\<rparr>
    = Inr (False, \<lparr>system_tick = 700000, wireless_connected = True,
                    last_alert_time = 300000\<rparr>, ev3)"
    and c4: "send_wireless_alert example_platform ALERT_PEST_RISK (Some example_sample) (85 / 100)
      \<lparr>system_tick = 800000, wireless_connected = True, last_alert_time = 300000\<rparr>
    = Inr (True, \<lparr>system_tick = 800000, wireless_connected = True,
                   last_alert_time = 800000\<rparr>, ev4)"
    using example_call_1 example_call_3 example_call_4 by blast
  have c2: "send_wireless_alert example_platform ALERT_PEST_RISK (Some example_sample) (85 / 100)
      \<lparr>system_tick = 301000, wireless_connected = True, last_alert_time = 300000\<rparr>
    = Inr (False, \<lparr>system_tick = 301000, wireless_connected = True,
                    last_alert_time = 300000\<rparr>, [])"
    by (intro rate_limited) (simp add: MIN_ALERT_INTERVAL_MS_def)
  show ?thesis
    using c1 c2 c3 c4 by (simp add: example_calls_def boot_globals_def invoke_call_def)
qed

lemma low_battery_text:
  "alert_json_text example_platform
     \<lparr>alert_device_id = DEVICE_ID, alert_timestamp = 3600000,
      alert_type = ALERT_LOW_BATTERY, alert_confidence = 0,
      alert_sensor_data = uninit_sensor_data example_platform\<rparr>
   = ''{'' @ nl @
     ''  '' @ quoted ''device_id'' @ '': '' @ quoted ''KR_001'' @ '','' @ nl @
     ''  '' @ quoted ''timestamp'' @ '': 3600000,'' @ nl @
     ''  '' @ quoted ''alert_type'' @ '': '' @ quoted ''low_battery'' @ '','' @ nl @
     ''  '' @ quoted ''confidence'' @ '': 0,'' @ nl @
     ''  '' @ quoted ''sensor_data'' @ '': {'' @ nl @
     ''    '' @ quoted ''moisture'' @ '': 12.3,'' @ nl @
     ''    '' @ quoted ''temperature'' @ '': -4.5,'' @ nl @
     ''    '' @ quoted ''humidity'' @ '': 67.8,'' @ nl @
     ''    '' @ quoted ''audio'' @ '': 0.12'' @ nl @
     ''  },'' @ nl @
     ''  '' @ quoted ''recommendation'' @ '': ''
          @ quoted ''Check solar panel and charging system'' @ nl @
     ''}''"
  by (simp add: alert_json_text_def example_platform_def example_fmt_def dec.simps
      quoted_def nl_def DEVICE_ID_def)

subsection \<open>Auxiliary facts: the statistics buffer\<close>

lemma mod_shift_neq:
  fixes h i j n :: nat
  assumes "i < j" and "j - i < n"
  shows "(h + i) mod n \<noteq> (h + j) mod n"
proof
  assume "(h + i) mod n = (h + j) mod n"
  then have "n dvd (h + j) - (h + i)"
    using assms(1) by (metis add_le_cancel_left less_imp_le_nat mod_eq_dvd_iff_nat)
  then have "n dvd j - i" by simp
  with assms show False
    by (metis dvd_imp_le nat_less_le not_le zero_less_diff)
qed

lemma push_full: "cb_count cb = cb_size cb \<Longrightarrow> circular_buffer_push cb v = (False, cb)"
  by (simp add: circular_buffer_push_def)

lemma push_contents:
  assumes "cb_inv cb" and "cb_count cb < cb_size cb"
  shows "\<exists>cb'. circular_buffer_push cb v = (True, cb') \<and> cb_inv cb'
           \<and> cb_contents cb' = cb_contents cb @ [v]
           \<and> cb_count cb' = cb_count cb + 1 \<and> cb_size cb' = cb_size cb"
proof -
  let ?n = "cb_size cb" and ?h = "cb_head cb" and ?c = "cb_count cb"
  let ?cb' = "cb\<lparr>cb_buffer := (cb_buffer cb)[cb_tail cb := v],
                       cb_tail := (cb_tail cb + 1) mod cb_size cb,
                       cb_count := cb_count cb + 1\<rparr>"
  have len: "length (cb_buffer cb) = ?n" and h: "?h < ?n"
    and t: "cb_tail cb = (?h + ?c) mod ?n"
    using assms by (auto simp: cb_inv_def)
  have push: "circular_buffer_push cb v = (True, ?cb')"
    using assms(2) by (simp add: circular_buffer_push_def)
  have tl: "cb_tail cb < ?n" using t assms(2) by simp
  have old: "(cb_buffer cb)[cb_tail cb := v] ! ((?h + i) mod ?n) = cb_buffer cb ! ((?h + i) mod ?n)"
    if "i < ?c" for i
  proof -
    have "(?h + i) mod ?n \<noteq> (?h + ?c) mod ?n"
      using that assms(2) by (intro mod_shift_neq) auto
    then show ?thesis by (simp add: t)
  qed
  have new: "(cb_buffer cb)[cb_tail cb := v] ! ((?h + ?c) mod ?n) = v"
    using tl len by (simp add: t [symmetric])
  have "cb_contents ?cb' = cb_contents cb @ [v]"
    using old new by (simp add: cb_contents_def)
  moreover have "cb_inv ?cb'"
    using assms len h t by (auto simp: cb_inv_def mod_simps)
  ultimately show ?thesis using push by simp
qed

lemma pop_empty: "cb_count cb = 0 \<Longrightarrow> circular_buffer_pop cb = (None, cb)"
  by (simp add: circular_buffer_pop_def)

lemma pop_contents:
  assumes "cb_inv cb" and "0 < cb_count cb"
  shows "\<exists>cb'. circular_buffer_pop cb = (Some (hd (cb_contents cb)), cb') \<and> cb_inv cb'
           \<and> cb_contents cb' = tl (cb_contents cb)
           \<and> cb_count cb' = cb_count cb - 1 \<and> cb_size cb' = cb_size cb"
proof -
  let ?n = "cb_size cb" and ?h = "cb_head cb" and ?c = "cb_count cb"
  let ?cb' = "cb\<lparr>cb_head := (cb_head cb + 1) mod cb_size cb, cb_count := cb_count cb - 1\<rparr>"
  obtain c where c: "?c = Suc c"
    using assms(2) by (cases ?c) auto
  have len: "length (cb_buffer cb) = ?n" and h: "?h < ?n" and le: "?c \<le> ?n"
    and t: "cb_tail cb = (?h + ?c) mod ?n"
    using assms by (auto simp: cb_inv_def)
  have pop: "circular_buffer_pop cb = (Some (cb_buffer cb ! ?h), ?cb')"
    using assms(2) by (simp add: circular_buffer_pop_def)
  have split: "[0..<Suc c] = 0 # map Suc [0..<c]"
    by (simp add: upt_conv_Cons map_Suc_upt del: upt_Suc)
  have conts: "cb_contents cb
      = cb_buffer cb ! ?h # map (\<lambda>i. cb_buffer cb ! ((?h + Suc i) mod ?n)) [0..<c]"
    unfolding cb_contents_def c split using h by (simp add: comp_def)
  have "cb_contents ?cb' = map (\<lambda>i. cb_buffer cb ! ((?h + Suc i) mod ?n)) [0..<c]"
    by (simp add: cb_contents_def c mod_simps)
  then have "cb_contents ?cb' = tl (cb_contents cb)" and "hd (cb_contents cb) = cb_buffer cb ! ?h"
    using conts by simp_all
  moreover have "cb_inv ?cb'"
    using assms len h t le by (auto simp: cb_inv_def c mod_simps)
  ultimately show ?thesis using pop by simp
qed

lemma push_all_contents:
  "cb_inv cb \<Longrightarrow>
     \<exists>cb'. push_all vs cb
            = (replicate (min (length vs) (cb_size cb - cb_count cb)) True
                 @ replicate (length vs - (cb_size cb - cb_count cb)) False, cb')
         \<and> cb_inv cb' \<and> cb_size cb' = cb_size cb
         \<and> cb_contents cb' = cb_contents cb @ take (cb_size cb - cb_count cb) vs
         \<and> cb_count cb' = cb_count cb + min (length vs) (cb_size cb - cb_count cb)"
proof (induction vs arbitrary: cb)
  case Nil
  then show ?case by simp
next
  case (Cons v vs)
  show ?case
  proof (cases "cb_count cb = cb_size cb")
    case True
    with Cons.IH [OF Cons.prems] show ?thesis
      by (auto simp: push_full)
  next
    case False
    then have lt: "cb_count cb < cb_size cb"
      using Cons.prems by (simp add: cb_inv_def)
    then obtain cb1 where p: "circular_buffer_push cb v = (True, cb1)" and i1: "cb_inv cb1"
      and c1: "cb_contents cb1 = cb_contents cb @ [v]"
      and n1: "cb_count cb1 = cb_count cb + 1" and s1: "cb_size cb1 = cb_size cb"
      using push_contents [OF Cons.prems, of v] by blast
    obtain k where k: "cb_size cb - cb_count cb = Suc k"
      using lt by (cases "cb_size cb - cb_count cb") auto
    then have k1: "cb_size cb - Suc (cb_count cb) = k"
      by simp
    from Cons.IH [OF i1] show ?thesis
      by (auto simp: p c1 n1 s1 k k1)
  qed
qed

lemma pop_n_contents:
  "cb_inv cb \<Longrightarrow>
     \<exists>cb'. pop_n k cb
            = (map Some (take k (cb_contents cb)) @ replicate (k - cb_count cb) None, cb')
         \<and> cb_inv cb' \<and> cb_size cb' = cb_size cb
         \<and> cb_contents cb' = drop k (cb_contents cb)
         \<and> cb_count cb' = cb_count cb - k"
proof (induction k arbitrary: cb)
  case 0
  then show ?case by simp
next
  case (Suc k)
  have lc: "length (cb_contents cb) = cb_count cb"
    by (simp add: cb_contents_def)
  show ?case
  proof (cases "cb_count cb = 0")
    case True
    then have "cb_contents cb = []" using lc by simp
    with Suc.IH [OF Suc.prems] True show ?thesis
      by (auto simp: pop_empty replicate_app_Cons_same)
  next
    case False
    then obtain x xs where xs: "cb_contents cb = x # xs"
      using lc by (cases "cb_contents cb") auto
    obtain cb1 where p: "circular_buffer_pop cb = (Some x, cb1)" and i1: "cb_inv cb1"
      and c1: "cb_contents cb1 = xs"
      and n1: "cb_count cb1 = cb_count cb - 1" and s1: "cb_size cb1 = cb_size cb"
      using pop_contents [OF Suc.prems] False xs by auto
    have "k - (cb_count cb - Suc 0) = Suc k - cb_count cb"
      using False by simp
    with Suc.IH [OF i1] show ?thesis
      by (auto simp: p c1 n1 s1 xs)
  qed
qed

lemma init_inv: "length buffer = n \<Longrightarrow> cb_inv (circular_buffer_init buffer n)"
  by (auto simp: cb_inv_def circular_buffer_init_def)

lemma init_contents: "cb_contents (circular_buffer_init buffer n) = []"
  by (simp add: cb_contents_def circular_buffer_init_def)


lemma init_fields:
  "cb_size (circular_buffer_init buffer n) = n" "cb_count (circular_buffer_init buffer n) = 0"
  by (simp_all add: circular_buffer_init_def)

lemma length_cb_contents: "length (cb_contents cb) = cb_count cb"
  by (simp add: cb_contents_def)

subsection \<open>The claims\<close>

text \<open>
  C8. Feature extraction is a function of the sample alone and yields exactly
  \<open>[soil_moisture/100, (temperature - 10)/40, humidity/100, audio_energy]\<close>; nothing is
  clamped (a temperature of 90 gives the feature 2, a moisture of -50 gives -1/2); the
  sample with moisture 20, temperature 35, humidity 80 and audio energy 0.9 gives
  \<open>[0.20, 0.625, 0.80, 0.9]\<close>.
\<close>

theorem extract_features_spec:
  "extract_features s =
     [soil_moisture s / 100, (temperature s - 10) / 40, humidity s / 100, audio_energy s]
   \<and> length (extract_features s) = 4
   \<and> extract_features \<lparr>soil_moisture = 20, temperature = 35, humidity = 80,
        audio_energy = 9 / 10, timestamp = t\<rparr> = [20 / 100, 625 / 1000, 80 / 100, 9 / 10]
   \<and> extract_features \<lparr>soil_moisture = - 50, temperature = 90, humidity = 250,
        audio_energy = 3, timestamp = t\<rparr> = [- 1 / 2, 2, 5 / 2, 3]"
  by (simp add: extract_features_def)


text \<open>
  C3, as amended. The quantisation step is the C conversion
  \<open>(int8_t)(f / scale + zero_point)\<close>, the quotient and the sum computed in binary32.
  Let \<open>y\<close> be that binary32 operand, when it is a finite number. If \<open>y\<close> truncated
  toward zero lies in \<open>[-128, 127]\<close>, the step yields that truncated value \<open>q\<close>: the
  integer with \<open>|q| \<le> |y|\<close> and \<open>|y - q| < 1\<close>, not the nearest integer. If it lies
  outside, the conversion is undefined and the step yields no value: nothing is clamped.
\<close>

theorem quantize_truncates:
  "quantize_operand scale zero_point f = Some y \<longrightarrow>
     (if - 128 \<le> trunc_toward_zero y \<and> trunc_toward_zero y \<le> 127
      then \<exists>q. quantize scale zero_point f = Some q \<and> sint q = trunc_toward_zero y
             \<and> \<bar>real_of_int (sint q)\<bar> \<le> \<bar>y\<bar> \<and> \<bar>y - real_of_int (sint q)\<bar> < 1
      else quantize scale zero_point f = None)"
proof (intro impI)
  assume operand: "quantize_operand scale zero_point f = Some y"
  define t where "t = trunc_toward_zero y"
  show "if - 128 \<le> trunc_toward_zero y \<and> trunc_toward_zero y \<le> 127
      then \<exists>q. quantize scale zero_point f = Some q \<and> sint q = trunc_toward_zero y
             \<and> \<bar>real_of_int (sint q)\<bar> \<le> \<bar>y\<bar> \<and> \<bar>y - real_of_int (sint q)\<bar> < 1
      else quantize scale zero_point f = None"
  proof (cases "- 128 \<le> t \<and> t \<le> 127")
    case True
    define q :: "8 word" where "q = word_of_int t"
    have sq: "sint q = t"
      unfolding q_def using True by (simp add: sint_int8_of_int)
    have qq: "quantize scale zero_point f = Some q"
      using operand True sq unfolding t_def by (auto simp: quantize_Some_iff)
    have "\<bar>real_of_int t\<bar> \<le> \<bar>y\<bar>"
    proof (cases "0 \<le> y")
      case True
      then have "0 \<le> t" and "real_of_int t \<le> y"
        unfolding t_def by (simp_all add: trunc_toward_zero_nonneg)
      then show ?thesis by linarith
    next
      case False
      then have "t \<le> 0" and "y \<le> real_of_int t"
        unfolding t_def by (simp_all add: trunc_toward_zero_neg)
      then show ?thesis by linarith
    qed
    moreover have "\<bar>y - real_of_int t\<bar> < 1"
      using trunc_toward_zero_close [of y] unfolding t_def by linarith
    ultimately have "quantize scale zero_point f = Some q \<and> sint q = trunc_toward_zero y
        \<and> \<bar>real_of_int (sint q)\<bar> \<le> \<bar>y\<bar> \<and> \<bar>y - real_of_int (sint q)\<bar> < 1"
      using qq sq unfolding t_def by (simp del: of_int_sint)
    then have ex: "\<exists>q. quantize scale zero_point f = Some q \<and> sint q = trunc_toward_zero y
        \<and> \<bar>real_of_int (sint q)\<bar> \<le> \<bar>y\<bar> \<and> \<bar>y - real_of_int (sint q)\<bar> < 1"
      by (rule exI)
    from True have "- 128 \<le> trunc_toward_zero y \<and> trunc_toward_zero y \<le> 127"
      unfolding t_def .
    then show ?thesis
      using ex by (simp only: if_True simp_thms)
  next
    case False
    then have "quantize scale zero_point f = None"
      using operand unfolding t_def by (simp add: quantize_def float_to_int8_def Let_def)
    moreover from False have "\<not> (- 128 \<le> trunc_toward_zero y \<and> trunc_toward_zero y \<le> 127)"
      unfolding t_def .
    ultimately show ?thesis
      by (simp only: if_False simp_thms)
  qed
qed

text \<open>
  Evaluated: 0.75 / 0.5 gives 1; the floats nearest 0.9 and 0.01 give 90, where the
  exact quotient of those two floats truncates to 89; 0.65 and 0.05 stored as floats
  give 12; \<open>-1.75 / 0.5 + 3\<close> gives 0; and 100 / 0.5 = 200 gives no value.
\<close>

theorem quantize_truncates_witness:
  "quantize_operand (1 / 2) 0 (3 / 4) = Some (3 / 2)
   \<and> (\<exists>q. quantize (1 / 2) 0 (3 / 4) = Some q \<and> sint q = 1)
   \<and> quantize_operand (5368709 / 536870912) 0 (7549747 / 8388608) = Some 90
   \<and> trunc_toward_zero ((7549747 / 8388608) / (5368709 / 536870912) + 0) = 89
   \<and> (\<exists>q. quantize (5368709 / 536870912) 0 (7549747 / 8388608) = Some q \<and> sint q = 90)
   \<and> quantize_operand (5 / 100) 0 (65 / 100) = Some (13631487 / 1048576)
   \<and> (\<exists>q. quantize (5 / 100) 0 (65 / 100) = Some q \<and> sint q = 12)
   \<and> quantize_operand (1 / 2) 3 (- 7 / 4) = Some (- 1 / 2)
   \<and> (\<exists>q. quantize (1 / 2) 3 (- 7 / 4) = Some q \<and> sint q = 0)
   \<and> quantize_operand (1 / 2) 0 100 = Some 200
   \<and> quantize (1 / 2) 0 100 = None"
proof -
  have "\<exists>q. quantize (1 / 2) 0 (3 / 4) = Some q \<and> sint q = 1"
    using quantize_truncates [of "1 / 2" 0 "3 / 4" "3 / 2"] quantize_examples(1)
    by (simp add: trunc_examples(1)) blast
  moreover have "\<exists>q. quantize (5368709 / 536870912) 0 (7549747 / 8388608) = Some q
      \<and> sint q = 90"
    using quantize_truncates [of "5368709 / 536870912" 0 "7549747 / 8388608" 90]
      quantize_examples(2)
    by (simp add: trunc_examples(2)) blast
  moreover have "\<exists>q. quantize (5 / 100) 0 (65 / 100) = Some q \<and> sint q = 12"
    using quantize_truncates [of "5 / 100" 0 "65 / 100" "13631487 / 1048576"]
      quantize_examples(3)
    by (simp add: trunc_examples(3)) blast
  moreover have "\<exists>q. quantize (1 / 2) 3 (- 7 / 4) = Some q \<and> sint q = 0"
    using quantize_truncates [of "1 / 2" 3 "- 7 / 4" "- (1 / 2)"] quantize_examples(4)
    by (simp add: trunc_examples(4)) blast
  moreover have "quantize (1 / 2) 0 100 = None"
    using quantize_truncates [of "1 / 2" 0 100 200] quantize_examples(5)
    by (simp add: trunc_examples(5))
  ultimately show ?thesis
    using quantize_examples trunc_examples(6) by simp
qed

text \<open>
  C3 as the specification states it (round half away from zero, then clamp) fails on
  the code: for \<open>f = 0.75\<close>, \<open>scale = 0.5\<close>, \<open>zero_point = 0\<close> the quotient is 1.5
  (exactly, in binary32 too), the code's conversion gives 1 and the specification's
  formula gives 2.
\<close>

theorem quantize_not_round_clamp:
  "quantize (1 / 2) 0 (3 / 4) = Some 1 \<and> spec_quantize (1 / 2) 0 (3 / 4) = 2
   \<and> quantize (1 / 2) 0 (3 / 4) \<noteq> Some (spec_quantize (1 / 2) 0 (3 / 4))"
proof -
  have "quantize (1 / 2) 0 (3 / 4) = Some 1"
    by (simp add: quantize_def quantize_examples(1) float_to_int8_def trunc_examples(1))
  moreover have "spec_quantize (1 / 2) 0 (3 / 4) = 2"
    by (simp add: spec_quantize_def spec_round_def)
  ultimately show ?thesis by simp
qed

text \<open>
  C4, as amended. Let \<open>f\<close> and \<open>scale\<close> be binary32 numbers with
  \<open>2 ^ - 126 \<le> scale \<le> 2 ^ 100\<close> and let the zero point be an int8. For every such
  \<open>f\<close> whose rounded quotient plus zero point lies in \<open>[-128, 127]\<close>, the code's
  quantisation and the dequantisation of its result with the same parameters are both
  defined, and the result is within one step of \<open>f\<close> up to the rounding of binary32:
  \<open>|dequantize (quantize f) - f| \<le> scale * (1 + 2 ^ - 13)\<close>.
\<close>

theorem quantize_roundtrip:
  assumes fl_f: "to_f32 f = Some f" and fl_s: "to_f32 scale = Some scale"
    and s_lo: "1 / 2 ^ 126 \<le> scale" and s_hi: "scale \<le> 2 ^ 100"
    and zp_lo: "- 128 \<le> zero_point" and zp_hi: "zero_point \<le> 127"
    and lo: "- 128 \<le> spec_round (f / scale) + zero_point"
    and hi: "spec_round (f / scale) + zero_point \<le> 127"
  shows "\<exists>q d. quantize scale zero_point f = Some q
           \<and> dequantize scale zero_point q = Some d
           \<and> \<bar>d - f\<bar> \<le> scale * (1 + 1 / 2 ^ 13)"
proof -
  define x where "x = f / scale"
  define z where "z = real_of_int zero_point"
  have spos: "0 < scale"
    using s_lo by (rule less_le_trans [rotated]) simp
  have zr: "- 128 \<le> z" "z \<le> 127"
    using zp_lo zp_hi by (simp_all add: z_def)
  then have zabs: "\<bar>z\<bar> \<le> 128" by linarith
  have z32: "int32_range zero_point"
    using zp_lo zp_hi by (simp add: int32_range_def)
  have r: "\<bar>real_of_int (spec_round x) - x\<bar> \<le> 1 / 2"
    by (rule spec_round_close)
  have "- 128 \<le> real_of_int (spec_round x) + z" and "real_of_int (spec_round x) + z \<le> 127"
    using lo hi unfolding x_def z_def by linarith+
  with r have xz: "- 128 - 1 / 2 \<le> x + z" "x + z \<le> 127 + 1 / 2"
    by linarith+
  with zr have xabs: "\<bar>x\<bar> \<le> 257"
    unfolding abs_le_iff by (simp; linarith)
  \<comment> \<open>the quotient\<close>
  define a where "a = f32_round x"
  have ea: "\<bar>a - x\<bar> \<le> 1 / 2 ^ 15"
    unfolding a_def by (rule f32_round_within [OF xabs]) simp
  have a_ok: "f32_div f scale = Some a"
    using spos xabs to_f32_small [of x] by (simp add: f32_div_def x_def a_def)
  \<comment> \<open>the zero point as a float\<close>
  define Z where "Z = f32_of_int zero_point"
  have eZ: "\<bar>Z - z\<bar> \<le> 1 / 2 ^ 16"
    unfolding Z_def z_def [symmetric] f32_of_int_def
    by (rule f32_round_within [OF zabs]) simp
  \<comment> \<open>the sum\<close>
  define y where "y = f32_round (a + Z)"
  have aZ: "\<bar>a + Z\<bar> \<le> 129"
    using ea eZ xz unfolding abs_le_iff abs_less_iff by (simp; linarith)
  have ey: "\<bar>y - (a + Z)\<bar> \<le> 1 / 2 ^ 16"
    unfolding y_def by (rule f32_round_within [OF aZ]) simp
  have y_ok: "f32_add a Z = Some y"
    using aZ to_f32_small [of "a + Z"] by (simp add: f32_add_def y_def)
  have operand: "quantize_operand scale zero_point f = Some y"
    using fl_f fl_s a_ok y_ok z32 by (simp add: quantize_operand_def Z_def)
  have yclose: "\<bar>y - (x + z)\<bar> \<le> 1 / 2 ^ 14"
    using ea eZ ey unfolding abs_le_iff abs_less_iff by (simp; linarith)
  \<comment> \<open>the conversion to int8\<close>
  define t where "t = trunc_toward_zero y"
  have c: "\<bar>real_of_int t - y\<bar> < 1"
    unfolding t_def by (rule trunc_toward_zero_close)
  have ylo: "- 129 < y" and yhi: "y < 128"
    using yclose xz unfolding abs_le_iff by (simp; linarith)+
  have range: "- 128 \<le> t \<and> t \<le> 127"
  proof (cases "0 \<le> y")
    case True
    then have "0 \<le> t" and "real_of_int t \<le> y"
      unfolding t_def by (simp_all add: trunc_toward_zero_nonneg)
    with yhi show ?thesis by linarith
  next
    case False
    then have "t \<le> 0" and "y \<le> real_of_int t"
      unfolding t_def by (simp_all add: trunc_toward_zero_neg)
    with ylo show ?thesis by linarith
  qed
  define q :: "8 word" where "q = word_of_int t"
  have sq: "sint q = t"
    unfolding q_def using range by (simp add: sint_int8_of_int)
  have qq: "quantize scale zero_point f = Some q"
    using operand range sq unfolding t_def by (auto simp: quantize_Some_iff)
  \<comment> \<open>back through the dequantiser\<close>
  obtain d where dd: "dequantize scale zero_point q = Some d"
    and ed: "\<bar>d - dequantize_exact scale zero_point q\<bar> \<le> scale / 2 ^ 14"
    using dequantize_close [OF fl_s s_lo s_hi zp_lo zp_hi, of q] by blast
  define e where "e = dequantize_exact scale zero_point q"
  have f_eq: "f = x * scale"
    using spos by (simp add: x_def)
  have "\<bar>(real_of_int t - z) - x\<bar> \<le> 1 + 1 / 2 ^ 14"
    using c yclose unfolding abs_le_iff abs_less_iff by (simp; linarith)
  then have "\<bar>((real_of_int t - z) - x) * scale\<bar> \<le> (1 + 1 / 2 ^ 14) * scale"
    using spos by (simp only: abs_mult abs_of_pos [OF spos] mult_right_mono less_imp_le)
  moreover have "e - f = ((real_of_int t - z) - x) * scale"
    by (simp add: e_def dequantize_exact_def sq z_def f_eq algebra_simps)
  ultimately have ef: "\<bar>e - f\<bar> \<le> (1 + 1 / 2 ^ 14) * scale"
    by simp
  have "\<bar>d - f\<bar> \<le> \<bar>d - e\<bar> + \<bar>e - f\<bar>"
    by linarith
  also have "\<dots> \<le> scale / 2 ^ 14 + (1 + 1 / 2 ^ 14) * scale"
    using ed ef unfolding e_def by linarith
  also have "\<dots> \<le> scale * (1 + 1 / 2 ^ 13)"
    using spos by (simp add: field_simps)
  finally show ?thesis
    using qq dd by blast
qed

theorem quantize_roundtrip_witness:
  "to_f32 (6422947 / 2097152) = Some (6422947 / 2097152)
   \<and> to_f32 (825439 / 67108864) = Some (825439 / 67108864)
   \<and> (1 / 2 ^ 126 :: real) \<le> 825439 / 67108864 \<and> (825439 / 67108864 :: real) \<le> 2 ^ 100
   \<and> (- 128 :: int) \<le> - 128 \<and> (- 128 :: int) \<le> 127
   \<and> - 128 \<le> spec_round ((6422947 / 2097152) / (825439 / 67108864)) + (- 128)
   \<and> spec_round ((6422947 / 2097152) / (825439 / 67108864)) + (- 128) \<le> 127
   \<and> quantize (825439 / 67108864) (- 128) (6422947 / 2097152) = Some 120
   \<and> dequantize (825439 / 67108864) (- 128) 120 = Some (199911 / 65536)
   \<and> \<bar>199911 / 65536 - 6422947 / 2097152\<bar> \<le> (825439 / 67108864 :: real) * (1 + 1 / 2 ^ 13)
   \<and> (\<exists>q d. quantize (825439 / 67108864) (- 128) (6422947 / 2097152) = Some q
          \<and> dequantize (825439 / 67108864) (- 128) q = Some d
          \<and> \<bar>d - 6422947 / 2097152\<bar> \<le> 825439 / 67108864 * (1 + 1 / 2 ^ 13))"
proof -
  have h3: "(1 / 2 ^ 126 :: real) \<le> 825439 / 67108864"
    and h4: "(825439 / 67108864 :: real) \<le> 2 ^ 100"
    by simp_all
  have h5: "(- 128 :: int) \<le> - 128" and h6: "(- 128 :: int) \<le> 127"
    by simp_all
  have h7: "- 128 \<le> spec_round ((6422947 / 2097152) / (825439 / 67108864)) + (- 128)"
    and h8: "spec_round ((6422947 / 2097152) / (825439 / 67108864)) + (- 128) \<le> 127"
    by code_simp+
  have num: "\<bar>199911 / 65536 - 6422947 / 2097152\<bar>
      \<le> (825439 / 67108864 :: real) * (1 + 1 / 2 ^ 13)"
    by simp
  show ?thesis
    using quantize_roundtrip [OF roundtrip_example(1,2) h3 h4 h5 h6 h7 h8]
      roundtrip_example(1,2) roundtrip_example_values h3 h4 h7 h8 num
    by simp
qed

text \<open>
  C4 as the specification states it, with the bound \<open>scale\<close> itself, fails on the code:
  for the float \<open>scale = 825439 / 2 ^ 26\<close> (0.0123 stored as a float), \<open>zero_point = -128\<close>
  and the float \<open>f = 6422947 / 2 ^ 21\<close> the rounded quotient is 249, so the hypothesis
  holds (249 - 128 = 121); the code quantises to 120 and dequantises 120 to
  \<open>199911 / 2 ^ 16\<close>, whose distance to \<open>f\<close> is greater than \<open>scale\<close>.
\<close>

theorem roundtrip_exceeds_scale:
  "to_f32 (6422947 / 2097152) = Some (6422947 / 2097152)
   \<and> to_f32 (825439 / 67108864) = Some (825439 / 67108864)
   \<and> (0::real) < 825439 / 67108864
   \<and> - 128 \<le> spec_round ((6422947 / 2097152) / (825439 / 67108864)) + (- 128)
   \<and> spec_round ((6422947 / 2097152) / (825439 / 67108864)) + (- 128) \<le> 127
   \<and> quantize (825439 / 67108864) (- 128) (6422947 / 2097152) = Some 120
   \<and> dequantize (825439 / 67108864) (- 128) 120 = Some (199911 / 65536)
   \<and> \<not> \<bar>199911 / 65536 - 6422947 / 2097152\<bar> \<le> (825439 / 67108864 :: real)"
  using roundtrip_example(1,2,4) roundtrip_example_values by simp

text \<open>
  C2. For a three-element output tensor, the predicted class is an index \<open>k < 3\<close>
  whose int8 score is greatest, and every earlier index has a strictly smaller score: ties
  go to the lowest index. With a positive output scale the same holds of the raw scores,
  the dequantised outputs. The scores \<open>[0.5, 0.5, 0.3]\<close> give class 0, not class 1.
\<close>

theorem predicted_class_first_argmax:
  assumes "length output_data = 3"
  shows "\<exists>k<3. predicted_class (ml_output_result scale zp output_data it) = int k
           \<and> (\<forall>j<3. sint (output_data ! j) \<le> sint (output_data ! k))
           \<and> (\<forall>j<k. sint (output_data ! j) < sint (output_data ! k))
           \<and> (0 < scale \<longrightarrow>
                (\<forall>j<3. raw_scores (ml_output_result scale zp output_data it) ! j
                          \<le> raw_scores (ml_output_result scale zp output_data it) ! k)
                \<and> (\<forall>j<k. raw_scores (ml_output_result scale zp output_data it) ! j
                          < raw_scores (ml_output_result scale zp output_data it) ! k))"
proof -
  obtain k where k: "k < 3" "find_max output_data = (output_data ! k, k)"
    and le: "\<forall>j<3. sint (output_data ! j) \<le> sint (output_data ! k)"
    and less: "\<forall>j<k. sint (output_data ! j) < sint (output_data ! k)"
    using find_max_first_argmax [OF assms] by blast
  note f = ml_output_result_fields [OF assms k(2) k(1), of scale zp it]
  have "\<forall>j<3. raw_scores (ml_output_result scale zp output_data it) ! j
                 \<le> raw_scores (ml_output_result scale zp output_data it) ! k"
    if "0 < scale"
    using f(3) le k(1) that by (simp add: dequantize_exact_mono)
  moreover have "\<forall>j<k. raw_scores (ml_output_result scale zp output_data it) ! j
                 < raw_scores (ml_output_result scale zp output_data it) ! k"
    if "0 < scale"
    using f(3) less k(1) that by (simp add: dequantize_exact_strict_mono)
  ultimately show ?thesis
    using k(1) f(1) le less by blast
qed

theorem predicted_class_first_argmax_witness:
  "length [5, 5, 3 :: 8 word] = 3 \<and> (0::real) < 1 / 10
   \<and> raw_scores (ml_output_result (1 / 10) 0 [5, 5, 3] 0) = [5 / 10, 5 / 10, 3 / 10]
   \<and> predicted_class (ml_output_result (1 / 10) 0 [5, 5, 3] 0) = 0
   \<and> predicted_class (ml_output_result (1 / 10) 0 [5, 5, 3] 0) \<noteq> 1
   \<and> (\<exists>k<3. predicted_class (ml_output_result (1 / 10) 0 [5, 5, 3] 0) = int k
         \<and> (\<forall>j<k. raw_scores (ml_output_result (1 / 10) 0 [5, 5, 3] 0) ! j
                     < raw_scores (ml_output_result (1 / 10) 0 [5, 5, 3] 0) ! k))"
proof -
  have h1: "length [5, 5, 3 :: 8 word] = 3" by simp
  have h2: "(0::real) < 1 / 10" by simp
  have "raw_scores (ml_output_result (1 / 10) 0 [5, 5, 3] 0) = [5 / 10, 5 / 10, 3 / 10]"
    and "predicted_class (ml_output_result (1 / 10) 0 [5, 5, 3] 0) = 0"
    by (simp_all add: ml_output_result_3 find_max_3 dequantize_exact_def)
  then show ?thesis
    using h1 h2 predicted_class_first_argmax [OF h1, of "1 / 10" 0 0] by auto
qed


text \<open>
  C1. The decision emits an alert exactly when the winning score (the confidence, which
  is the raw score of the predicted class) is strictly greater than the threshold and
  the class is water stress or pest risk: a score equal to the threshold gives no alert,
  class NORMAL gives none whatever the confidence, and when the decision is empty
  \<open>process_sensor_data\<close> leaves the globals as they are and calls nothing. A score of
  0.70 against the threshold 0.70 gives no alert, 0.70001 gives one.
\<close>

theorem alert_decision_strict_gate:
  "(alert_decision t r = Some k \<longleftrightarrow>
      confidence r > t / 100
      \<and> (predicted_class r = CLASS_WATER_STRESS \<and> k = ALERT_WATER_STRESS
         \<or> predicted_class r = CLASS_PEST_RISK \<and> k = ALERT_PEST_RISK))
   \<and> (confidence r \<le> t / 100 \<longrightarrow> alert_decision t r = None)
   \<and> (predicted_class r = CLASS_NORMAL \<longrightarrow> alert_decision t r = None)
   \<and> (length output_data = 3 \<longrightarrow>
        confidence (ml_output_result scale zp output_data it)
          = raw_scores (ml_output_result scale zp output_data it)
              ! nat (predicted_class (ml_output_result scale zp output_data it)))
   \<and> (run_ml_inference eng (system_tick g) sd = Inr r
        \<and> alert_decision ML_CONFIDENCE_THRESHOLD r = None
        \<longrightarrow> process_sensor_data eng pf sd g = Inr (g, []))"
proof -
  have "confidence (ml_output_result scale zp output_data it)
          = raw_scores (ml_output_result scale zp output_data it)
              ! nat (predicted_class (ml_output_result scale zp output_data it))"
    if len: "length output_data = 3"
  proof -
    obtain i where "i < 3" and "find_max output_data = (output_data ! i, i)"
      using find_max_first_argmax [OF len] by blast
    then show ?thesis
      using ml_output_result_fields [OF len, of i scale zp it] by simp
  qed
  then show ?thesis
    by (auto simp: alert_decision_def process_sensor_data_def CLASS_NORMAL_def
        CLASS_WATER_STRESS_def CLASS_PEST_RISK_def split: if_splits)
qed

theorem alert_decision_strict_gate_witness:
  "alert_decision ML_CONFIDENCE_THRESHOLD
      \<lparr>predicted_class = CLASS_PEST_RISK, confidence = 70 / 100,
       raw_scores = [5 / 100, 25 / 100, 70 / 100], inference_time_us = 0\<rparr> = None
   \<and> alert_decision ML_CONFIDENCE_THRESHOLD
      \<lparr>predicted_class = CLASS_PEST_RISK, confidence = 70001 / 100000,
       raw_scores = [5 / 100, 24999 / 100000, 70001 / 100000], inference_time_us = 0\<rparr>
       = Some ALERT_PEST_RISK
   \<and> alert_decision ML_CONFIDENCE_THRESHOLD
      \<lparr>predicted_class = CLASS_NORMAL, confidence = 99 / 100,
       raw_scores = [99 / 100, 1 / 100, 0], inference_time_us = 0\<rparr> = None
   \<and> length [5, 35, 60 :: 8 word] = 3
   \<and> confidence (ml_output_result (1 / 100) 0 [5, 35, 60] 0)
        = raw_scores (ml_output_result (1 / 100) 0 [5, 35, 60] 0)
            ! nat (predicted_class (ml_output_result (1 / 100) 0 [5, 35, 60] 0))
   \<and> run_ml_inference example_engine (system_tick boot_globals) example_sample
        = Inr \<lparr>predicted_class = CLASS_PEST_RISK, confidence = 60 / 100,
               raw_scores = [5 / 100, 35 / 100, 60 / 100], inference_time_us = 0\<rparr>
   \<and> process_sensor_data example_engine example_platform example_sample boot_globals
        = Inr (boot_globals, [])"
proof -
  let ?r = "\<lparr>predicted_class = CLASS_PEST_RISK, confidence = 60 / 100,
             raw_scores = [5 / 100, 35 / 100, 60 / 100], inference_time_us = 0\<rparr>"
  have q: "those (map (quantize (1 / 100) 0) (extract_features example_sample))
             = Some [20, 62, 80, 90]"
    using features_quantized by (simp add: extract_features_def example_sample_def)
  have run: "run_ml_inference example_engine (system_tick boot_globals) example_sample = Inr ?r"
    unfolding run_ml_inference_def
    by (simp add: example_engine_def q ml_output_result_3 find_max_3 dequantize_exact_def
        get_current_time_us_def CLASS_PEST_RISK_def)
  have none: "alert_decision ML_CONFIDENCE_THRESHOLD ?r = None"
    by (simp add: alert_decision_def ML_CONFIDENCE_THRESHOLD_def)
  show ?thesis
    using
      alert_decision_strict_gate [of ML_CONFIDENCE_THRESHOLD
        "\<lparr>predicted_class = CLASS_PEST_RISK, confidence = 70 / 100,
          raw_scores = [5 / 100, 25 / 100, 70 / 100], inference_time_us = 0\<rparr>"]
      alert_decision_strict_gate [of ML_CONFIDENCE_THRESHOLD
        "\<lparr>predicted_class = CLASS_PEST_RISK, confidence = 70001 / 100000,
          raw_scores = [5 / 100, 24999 / 100000, 70001 / 100000], inference_time_us = 0\<rparr>"
        ALERT_PEST_RISK]
      alert_decision_strict_gate [of ML_CONFIDENCE_THRESHOLD
        "\<lparr>predicted_class = CLASS_NORMAL, confidence = 99 / 100,
          raw_scores = [99 / 100, 1 / 100, 0], inference_time_us = 0\<rparr>"]
      alert_decision_strict_gate [of ML_CONFIDENCE_THRESHOLD ?r _ "[5, 35, 60]" "1 / 100" 0 0
        example_engine boot_globals example_sample example_platform]
      run none
    by (simp add: ML_CONFIDENCE_THRESHOLD_def)
qed

text \<open>
  C5. The rate limiter is global. Whatever the alert kind, the snapshot and the
  confidence, an intent submitted when \<open>system_tick - last_alert_time < 300000\<close> makes
  \<open>send_wireless_alert\<close> return false with the globals unchanged (nothing is queued)
  and with no outside call: no connection and no delivery is attempted. So after a first
  intent has been sent at tick \<open>t\<close>, a second intent of any kind at a tick less than
  300000 ms later is dropped.
\<close>

theorem rate_limit_is_global:
  "(system_tick g - last_alert_time g < MIN_ALERT_INTERVAL_MS \<longrightarrow>
      send_wireless_alert pf k sd conf g = Inr (False, g, []))
   \<and> (send_wireless_alert pf1 k1 sd1 conf1 g = Inr (True, g1, ev1)
        \<and> t2 - system_tick g < MIN_ALERT_INTERVAL_MS \<longrightarrow>
      send_wireless_alert pf2 k2 sd2 conf2 (g1\<lparr>system_tick := t2\<rparr>)
        = Inr (False, g1\<lparr>system_tick := t2\<rparr>, []))"
proof -
  have "send_wireless_alert pf2 k2 sd2 conf2 (g1\<lparr>system_tick := t2\<rparr>)
        = Inr (False, g1\<lparr>system_tick := t2\<rparr>, [])"
    if first: "send_wireless_alert pf1 k1 sd1 conf1 g = Inr (True, g1, ev1)"
      and close: "t2 - system_tick g < MIN_ALERT_INTERVAL_MS"
  proof -
    have "last_alert_time g1 = system_tick g"
      using send_wireless_alert_result [OF first] by simp
    with close show ?thesis by (intro rate_limited) simp
  qed
  then show ?thesis by (simp add: rate_limited)
qed

theorem rate_limit_is_global_witness:
  "(\<exists>ev1. send_wireless_alert example_platform ALERT_WATER_STRESS (Some example_sample)
            (85 / 100)
            \<lparr>system_tick = 300000, wireless_connected = False, last_alert_time = 0\<rparr>
          = Inr (True, \<lparr>system_tick = 300000, wireless_connected = True,
                         last_alert_time = 300000\<rparr>, ev1))
   \<and> (301000 :: 32 word) - 300000 < MIN_ALERT_INTERVAL_MS
   \<and> send_wireless_alert example_platform ALERT_PEST_RISK (Some example_sample) (85 / 100)
        \<lparr>system_tick = 301000, wireless_connected = True, last_alert_time = 300000\<rparr>
       = Inr (False, \<lparr>system_tick = 301000, wireless_connected = True,
                       last_alert_time = 300000\<rparr>, [])"
proof -
  let ?g0 = "\<lparr>system_tick = 300000, wireless_connected = False, last_alert_time = 0\<rparr>"
  let ?g1 = "\<lparr>system_tick = 300000, wireless_connected = True, last_alert_time = 300000\<rparr>"
  obtain ev1 where first:
    "send_wireless_alert example_platform ALERT_WATER_STRESS (Some example_sample) (85 / 100) ?g0
       = Inr (True, ?g1, ev1)"
    using example_call_1 by blast
  have close: "(301000 :: 32 word) - 300000 < MIN_ALERT_INTERVAL_MS"
    by (simp add: MIN_ALERT_INTERVAL_MS_def)
  from rate_limit_is_global [of ?g0 example_platform ALERT_WATER_STRESS "Some example_sample"
      "85 / 100" example_platform ALERT_WATER_STRESS "Some example_sample" "85 / 100" ?g1 ev1
      301000 example_platform ALERT_PEST_RISK "Some example_sample" "85 / 100"]
    first close
  have "send_wireless_alert example_platform ALERT_PEST_RISK (Some example_sample) (85 / 100)
        \<lparr>system_tick = 301000, wireless_connected = True, last_alert_time = 300000\<rparr>
       = Inr (False, \<lparr>system_tick = 301000, wireless_connected = True,
                       last_alert_time = 300000\<rparr>, [])"
    by simp
  with first close show ?thesis by blast
qed

text \<open>
  C6. An invocation of the dispatcher returns true exactly when its last outside call is
  a POST that succeeded; it then sets \<open>last_alert_time\<close> to the current
  \<open>system_tick\<close>, and in every other outcome (rate-limited, no connection, no JSON,
  failed delivery) leaves \<open>last_alert_time\<close> as it was. Over every sequence of
  invocations from boot whose ticks are non-decreasing, the successive values of
  \<open>last_alert_time\<close> are non-decreasing.
\<close>

theorem last_alert_time_monotone:
  "(send_wireless_alert pf k sd conf g = Inr (ok, g', ev) \<longrightarrow>
      (ok \<longleftrightarrow> (\<exists>body len. ev \<noteq> [] \<and> last ev = EV_HTTP_POST body len
                        \<and> send_http_alert pf body len))
      \<and> (ok \<longrightarrow> last_alert_time g' = system_tick g)
      \<and> (\<not> ok \<longrightarrow> last_alert_time g' = last_alert_time g))
   \<and> (sorted (map call_tick cs) \<longrightarrow>
        sorted (map (\<lambda>r. fst (snd r)) (run_calls cs boot_globals)))
   \<and> (sorted (map call_tick cs) \<and> (\<forall>c\<in>set cs. last_alert_time g \<le> call_tick c) \<longrightarrow>
        sorted (last_alert_time g # map (\<lambda>r. fst (snd r)) (run_calls cs g)))"
proof (intro conjI impI)
  assume "sorted (map call_tick cs)"
  from run_calls_sorted [OF this, of boot_globals]
  show "sorted (map (\<lambda>r. fst (snd r)) (run_calls cs boot_globals))"
    by (simp add: boot_globals_def)
next
  assume "sorted (map call_tick cs) \<and> (\<forall>c\<in>set cs. last_alert_time g \<le> call_tick c)"
  then show "sorted (last_alert_time g # map (\<lambda>r. fst (snd r)) (run_calls cs g))"
    using run_calls_sorted by blast
next
  assume "send_wireless_alert pf k sd conf g = Inr (ok, g', ev)"
  then show "ok \<longleftrightarrow> (\<exists>body len. ev \<noteq> [] \<and> last ev = EV_HTTP_POST body len
                        \<and> send_http_alert pf body len)"
    by (rule send_wireless_alert_delivery)
next
  assume "send_wireless_alert pf k sd conf g = Inr (ok, g', ev)" and ok
  then show "last_alert_time g' = system_tick g"
    using send_wireless_alert_result by blast
next
  assume "send_wireless_alert pf k sd conf g = Inr (ok, g', ev)" and "\<not> ok"
  then show "last_alert_time g' = last_alert_time g"
    using send_wireless_alert_result by blast
qed

theorem last_alert_time_monotone_witness:
  "sorted (map call_tick example_calls)
   \<and> map (\<lambda>r. (fst r, fst (snd r))) (run_calls example_calls boot_globals)
       = [(True, 300000), (False, 300000), (False, 300000), (True, 800000)]
   \<and> sorted (map (\<lambda>r. fst (snd r)) (run_calls example_calls boot_globals))
   \<and> (\<exists>g' ev. send_wireless_alert example_platform ALERT_WATER_STRESS (Some example_sample)
            (85 / 100)
            \<lparr>system_tick = 300000, wireless_connected = False, last_alert_time = 0\<rparr>
          = Inr (True, g', ev) \<and> last_alert_time g' = 300000)
   \<and> (\<exists>g' ev. send_wireless_alert failing_platform ALERT_LOW_BATTERY None 0
            \<lparr>system_tick = 700000, wireless_connected = True, last_alert_time = 300000\<rparr>
          = Inr (False, g', ev) \<and> last_alert_time g' = 300000)"
proof -
  let ?g0 = "\<lparr>system_tick = 300000, wireless_connected = False, last_alert_time = 0\<rparr>"
  let ?g2 = "\<lparr>system_tick = 700000, wireless_connected = True, last_alert_time = 300000\<rparr>"
  have srt: "sorted (map call_tick example_calls)"
    by (simp add: example_calls_def)
  obtain g1 ev1 where first:
    "send_wireless_alert example_platform ALERT_WATER_STRESS (Some example_sample) (85 / 100) ?g0
       = Inr (True, g1, ev1)"
    using example_call_1 by blast
  obtain g3 ev3 where third:
    "send_wireless_alert failing_platform ALERT_LOW_BATTERY None 0 ?g2 = Inr (False, g3, ev3)"
    using example_call_3 by blast
  have "sorted (map (\<lambda>r. fst (snd r)) (run_calls example_calls boot_globals))"
    and "last_alert_time g1 = 300000"
    using last_alert_time_monotone [of example_platform ALERT_WATER_STRESS "Some example_sample"
        "85 / 100" ?g0 True g1 ev1 example_calls] srt first
    by simp_all
  moreover have "last_alert_time g3 = 300000"
    using last_alert_time_monotone [of failing_platform ALERT_LOW_BATTERY None 0 ?g2 False
        g3 ev3 example_calls] third
    by simp
  ultimately show ?thesis
    using srt example_run first third by blast
qed

text \<open>
  C10. \<open>last_alert_time\<close> starts at 0 and the rate check comes first, so while
  \<open>system_tick < 300000\<close> and nothing has been sent, every intent of every kind is
  rejected: \<open>send_wireless_alert\<close> returns false, changes nothing and makes no outside
  call. Every sequence of invocations from boot whose ticks are all below 300000 returns
  false throughout and leaves \<open>last_alert_time\<close> at 0.
\<close>

theorem boot_window_rejects_every_alert:
  "(last_alert_time g = 0 \<and> system_tick g < MIN_ALERT_INTERVAL_MS \<longrightarrow>
      send_wireless_alert pf k sd conf g = Inr (False, g, []))
   \<and> ((\<forall>c\<in>set cs. call_tick c < MIN_ALERT_INTERVAL_MS) \<longrightarrow>
        run_calls cs boot_globals = map (\<lambda>c. (False, 0, [])) cs)
   \<and> last_alert_time boot_globals = 0"
  using run_calls_boot_window [of boot_globals cs]
  by (simp add: boot_window boot_globals_def)

theorem boot_window_rejects_every_alert_witness:
  "last_alert_time \<lparr>system_tick = 299999, wireless_connected = False, last_alert_time = 0\<rparr> = 0
   \<and> system_tick \<lparr>system_tick = 299999, wireless_connected = False, last_alert_time = 0\<rparr>
        < MIN_ALERT_INTERVAL_MS
   \<and> send_wireless_alert example_platform ALERT_LOW_BATTERY None 0
        \<lparr>system_tick = 299999, wireless_connected = False, last_alert_time = 0\<rparr>
       = Inr (False, \<lparr>system_tick = 299999, wireless_connected = False,
                       last_alert_time = 0\<rparr>, [])
   \<and> list_all (\<lambda>c. call_tick c < MIN_ALERT_INTERVAL_MS) boot_calls
   \<and> run_calls boot_calls boot_globals = [(False, 0, []), (False, 0, []), (False, 0, [])]"
  using boot_window_rejects_every_alert [of
      "\<lparr>system_tick = 299999, wireless_connected = False, last_alert_time = 0\<rparr>"
      example_platform ALERT_LOW_BATTERY None 0 boot_calls]
  by (simp add: boot_calls_def MIN_ALERT_INTERVAL_MS_def)

text \<open>
  C9 states that an alert without a snapshot yields a payload without the
  \<open>sensor_data\<close> object. The code does otherwise: the low-battery check passes
  \<^verbatim>\<open>NULL\<close>, \<open>send_wireless_alert\<close> then leaves \<open>alert.sensor_data\<close> unset, and
  \<open>format_alert_json\<close> prints the object all the same, from whatever the local held.
  The text always contains the object with the moisture of \<open>alert.sensor_data\<close>; and
  with a voltage of 3.2 at tick 3600000 on the example platform, the posted buffer is the
  first 255 characters of the text below, with the length 273 handed to the transport.
\<close>

theorem low_battery_payload_has_sensor_data:
  "(\<exists>pre post. alert_json_text pf alert
       = pre @ quoted ''sensor_data'' @ '': {'' @ nl @ ''    '' @ quoted ''moisture''
           @ '': '' @ fmt_1f pf (soil_moisture (alert_sensor_data alert)) @ post)
   \<and> check_battery_level example_platform (32 / 10)
     \<lparr>system_tick = 3600000, wireless_connected = False, last_alert_time = 0\<rparr>
   = Inr (\<lparr>system_tick = 3600000, wireless_connected = True, last_alert_time = 3600000\<rparr>,
          [EV_WIFI_CONNECT,
           EV_HTTP_POST
             (take 255
               (''{'' @ nl @
                ''  '' @ quoted ''device_id'' @ '': '' @ quoted ''KR_001'' @ '','' @ nl @
                ''  '' @ quoted ''timestamp'' @ '': 3600000,'' @ nl @
                ''  '' @ quoted ''alert_type'' @ '': '' @ quoted ''low_battery'' @ '','' @ nl @
                ''  '' @ quoted ''confidence'' @ '': 0,'' @ nl @
                ''  '' @ quoted ''sensor_data'' @ '': {'' @ nl @
                ''    '' @ quoted ''moisture'' @ '': 12.3,'' @ nl @
                ''    '' @ quoted ''temperature'' @ '': -4.5,'' @ nl @
                ''    '' @ quoted ''humidity'' @ '': 67.8,'' @ nl @
                ''    '' @ quoted ''audio'' @ '': 0.12'' @ nl @
                ''  },'' @ nl @
                ''  '' @ quoted ''recommendation'' @ '': ''
                     @ quoted ''Check solar panel and charging system'' @ nl @
                ''}''))
             273])"
  (is "?always \<and> ?low_battery")
proof (rule conjI)
  show ?always
    unfolding alert_json_text_def
    by (intro exI [of _ "''{'' @ nl @
          ''  '' @ quoted ''device_id'' @ '': '' @ quoted (alert_device_id alert) @ '','' @ nl @
          ''  '' @ quoted ''timestamp'' @ '': '' @ dec (unat (alert_timestamp alert)) @ '',''
            @ nl @
          ''  '' @ quoted ''alert_type'' @ '': ''
            @ quoted (get_alert_type_string (alert_type alert)) @ '','' @ nl @
          ''  '' @ quoted ''confidence'' @ '': '' @ dec (unat (alert_confidence alert)) @ '',''
            @ nl @ ''  ''"] exI [of _ "'','' @ nl @
          ''    '' @ quoted ''temperature'' @ '': ''
            @ fmt_1f pf (temperature (alert_sensor_data alert)) @ '','' @ nl @
          ''    '' @ quoted ''humidity'' @ '': ''
            @ fmt_1f pf (humidity (alert_sensor_data alert)) @ '','' @ nl @
          ''    '' @ quoted ''audio'' @ '': ''
            @ fmt_2f pf (audio_energy (alert_sensor_data alert)) @ nl @
          ''  },'' @ nl @
          ''  '' @ quoted ''recommendation'' @ '': ''
            @ quoted (get_alert_recommendation (alert_type alert)) @ nl @
          ''}''"]) simp
next
  let ?g = "\<lparr>system_tick = 3600000, wireless_connected = False, last_alert_time = 0\<rparr>"
  let ?a = "\<lparr>alert_device_id = DEVICE_ID, alert_timestamp = 3600000,
      alert_type = ALERT_LOW_BATTERY, alert_confidence = 0,
      alert_sensor_data = uninit_sensor_data example_platform\<rparr>"
  have len: "length (alert_json_text example_platform ?a) = 273"
    unfolding low_battery_text by (simp add: quoted_def nl_def)
  have "send_wireless_alert example_platform ALERT_LOW_BATTERY None 0 ?g
      = Inr (True, \<lparr>system_tick = 3600000, wireless_connected = True,
                      last_alert_time = 3600000\<rparr>,
             [EV_WIFI_CONNECT, EV_HTTP_POST (take 255 (alert_json_text example_platform ?a)) 273])"
    using send_wireless_alert_attempt [where pf = example_platform and k = ALERT_LOW_BATTERY
      and sd = None and conf = 0 and g = ?g,
      OF _ example_ensure_connected example_uint8(2) refl _ refl refl]
    by (simp add: len example_send_http_alert MIN_ALERT_INTERVAL_MS_def)
  then show ?low_battery
    unfolding low_battery_text
    by (simp add: check_battery_level_def BATTERY_LOW_THRESHOLD_def)
qed

text \<open>
  C7. Pushing into a buffer whose count equals its capacity returns false and changes
  nothing; on a well-formed buffer with room, a push succeeds and appends at the tail.
  So pushing capacity + 1 values into an initialised buffer succeeds capacity times,
  fails the last time, and leaves exactly the first capacity values in FIFO order.
  Popping an empty buffer returns false; a pop otherwise returns and removes the head,
  so popping capacity + 1 times from a full buffer yields its contents in order and then
  a failure. The mean and the standard deviation of an empty buffer are 0. Every
  operation keeps a well-formed buffer well-formed, in particular count at most
  capacity: nothing is evicted.
\<close>

theorem stats_buffer_boundaries:
  "(cb_count cb = cb_size cb \<longrightarrow> circular_buffer_push cb v = (False, cb))
   \<and> (cb_inv cb \<and> cb_count cb < cb_size cb \<longrightarrow>
        (\<exists>cb'. circular_buffer_push cb v = (True, cb')
               \<and> cb_contents cb' = cb_contents cb @ [v]))
   \<and> (length buffer = n \<and> length vs = n + 1 \<longrightarrow>
        (\<exists>cb'. push_all vs (circular_buffer_init buffer n) = (replicate n True @ [False], cb')
               \<and> cb_count cb' = n \<and> cb_contents cb' = take n vs))
   \<and> (cb_count cb = 0 \<longrightarrow> circular_buffer_pop cb = (None, cb))
   \<and> (cb_inv cb \<and> 0 < cb_count cb \<longrightarrow>
        (\<exists>cb'. circular_buffer_pop cb = (Some (hd (cb_contents cb)), cb')
               \<and> cb_contents cb' = tl (cb_contents cb)))
   \<and> (cb_inv cb \<and> cb_count cb = cb_size cb \<longrightarrow>
        (\<exists>cb'. pop_n (cb_size cb + 1) cb = (map Some (cb_contents cb) @ [None], cb')
               \<and> cb_count cb' = 0))
   \<and> (cb_count cb = 0 \<longrightarrow> circular_buffer_mean cb = 0 \<and> circular_buffer_stddev cb = 0)
   \<and> (length buffer = n \<longrightarrow> cb_inv (circular_buffer_init buffer n))
   \<and> (cb_inv cb \<longrightarrow>
        cb_inv (snd (circular_buffer_push cb v)) \<and> cb_inv (snd (circular_buffer_pop cb))
        \<and> cb_count cb \<le> cb_size cb
        \<and> cb_count (snd (circular_buffer_push cb v)) \<le> cb_size (snd (circular_buffer_push cb v))
        \<and> cb_count (snd (circular_buffer_pop cb)) \<le> cb_size (snd (circular_buffer_pop cb)))"
proof -
  have a: "cb_count cb = cb_size cb \<longrightarrow> circular_buffer_push cb v = (False, cb)"
    by (simp add: push_full)
  have b: "cb_inv cb \<and> cb_count cb < cb_size cb \<longrightarrow>
        (\<exists>cb'. circular_buffer_push cb v = (True, cb')
               \<and> cb_contents cb' = cb_contents cb @ [v])"
    using push_contents [of cb v] by blast
  have c: "length buffer = n \<and> length vs = n + 1 \<longrightarrow>
        (\<exists>cb'. push_all vs (circular_buffer_init buffer n) = (replicate n True @ [False], cb')
               \<and> cb_count cb' = n \<and> cb_contents cb' = take n vs)"
  proof
    assume h: "length buffer = n \<and> length vs = n + 1"
    then have "cb_inv (circular_buffer_init buffer n)" by (simp add: init_inv)
    from push_all_contents [OF this, of vs] h show "\<exists>cb'.
        push_all vs (circular_buffer_init buffer n) = (replicate n True @ [False], cb')
        \<and> cb_count cb' = n \<and> cb_contents cb' = take n vs"
      by (auto simp: init_contents init_fields)
  qed
  have d: "cb_count cb = 0 \<longrightarrow> circular_buffer_pop cb = (None, cb)"
    by (simp add: pop_empty)
  have e: "cb_inv cb \<and> 0 < cb_count cb \<longrightarrow>
        (\<exists>cb'. circular_buffer_pop cb = (Some (hd (cb_contents cb)), cb')
               \<and> cb_contents cb' = tl (cb_contents cb))"
    using pop_contents [of cb] by blast
  have f: "cb_inv cb \<and> cb_count cb = cb_size cb \<longrightarrow>
        (\<exists>cb'. pop_n (cb_size cb + 1) cb = (map Some (cb_contents cb) @ [None], cb')
               \<and> cb_count cb' = 0)"
  proof
    assume h: "cb_inv cb \<and> cb_count cb = cb_size cb"
    from pop_n_contents [of cb "cb_size cb + 1"] h
    show "\<exists>cb'. pop_n (cb_size cb + 1) cb = (map Some (cb_contents cb) @ [None], cb')
               \<and> cb_count cb' = 0"
      using length_cb_contents [of cb] by auto
  qed
  have g: "cb_count cb = 0 \<longrightarrow> circular_buffer_mean cb = 0 \<and> circular_buffer_stddev cb = 0"
    by (simp add: circular_buffer_mean_def circular_buffer_stddev_def)
  have i: "length buffer = n \<longrightarrow> cb_inv (circular_buffer_init buffer n)"
    by (simp add: init_inv)
  have j: "cb_inv cb \<longrightarrow>
        cb_inv (snd (circular_buffer_push cb v)) \<and> cb_inv (snd (circular_buffer_pop cb))
        \<and> cb_count cb \<le> cb_size cb
        \<and> cb_count (snd (circular_buffer_push cb v)) \<le> cb_size (snd (circular_buffer_push cb v))
        \<and> cb_count (snd (circular_buffer_pop cb)) \<le> cb_size (snd (circular_buffer_pop cb))"
  proof
    assume inv: "cb_inv cb"
    have p: "cb_inv (snd (circular_buffer_push cb v))"
    proof (cases "cb_count cb = cb_size cb")
      case True
      with inv show ?thesis by (simp add: push_full)
    next
      case False
      with inv have "cb_count cb < cb_size cb" by (simp add: cb_inv_def)
      from push_contents [OF inv this, of v] show ?thesis by auto
    qed
    have q: "cb_inv (snd (circular_buffer_pop cb))"
    proof (cases "cb_count cb = 0")
      case True
      with inv show ?thesis by (simp add: pop_empty)
    next
      case False
      then have "0 < cb_count cb" by simp
      from pop_contents [OF inv this] show ?thesis by auto
    qed
    from inv p q show "cb_inv (snd (circular_buffer_push cb v)) \<and> cb_inv (snd (circular_buffer_pop cb))
        \<and> cb_count cb \<le> cb_size cb
        \<and> cb_count (snd (circular_buffer_push cb v)) \<le> cb_size (snd (circular_buffer_push cb v))
        \<and> cb_count (snd (circular_buffer_pop cb)) \<le> cb_size (snd (circular_buffer_pop cb))"
      by (simp add: cb_inv_def)
  qed
  from a b c d e f g i j show ?thesis by blast
qed

theorem stats_buffer_boundaries_witness:
  "cb_inv \<lparr>cb_buffer = [1, 2, 3], cb_size = 3, cb_head = 0, cb_tail = 0, cb_count = 3\<rparr>
   \<and> circular_buffer_push
        \<lparr>cb_buffer = [1, 2, 3], cb_size = 3, cb_head = 0, cb_tail = 0, cb_count = 3\<rparr> 4
       = (False, \<lparr>cb_buffer = [1, 2, 3], cb_size = 3, cb_head = 0, cb_tail = 0, cb_count = 3\<rparr>)
   \<and> push_all [1, 2, 3, 4] (circular_buffer_init [0, 0, 0] 3)
       = ([True, True, True, False],
          \<lparr>cb_buffer = [1, 2, 3], cb_size = 3, cb_head = 0, cb_tail = 0, cb_count = 3\<rparr>)
   \<and> cb_contents \<lparr>cb_buffer = [1, 2, 3], cb_size = 3, cb_head = 0, cb_tail = 0, cb_count = 3\<rparr>
       = [1, 2, 3]
   \<and> pop_n 4 \<lparr>cb_buffer = [1, 2, 3], cb_size = 3, cb_head = 0, cb_tail = 0, cb_count = 3\<rparr>
       = ([Some 1, Some 2, Some 3, None],
          \<lparr>cb_buffer = [1, 2, 3], cb_size = 3, cb_head = 0, cb_tail = 0, cb_count = 0\<rparr>)
   \<and> (\<exists>cb'. circular_buffer_pop
          \<lparr>cb_buffer = [1, 2, 3], cb_size = 3, cb_head = 0, cb_tail = 0, cb_count = 3\<rparr>
          = (Some 1, cb') \<and> cb_contents cb' = [2, 3])
   \<and> cb_inv (circular_buffer_init [0, 0, 0] 3)
   \<and> (\<exists>cb'. circular_buffer_push (circular_buffer_init [0, 0, 0] 3) 1 = (True, cb')
          \<and> cb_contents cb' = [1])
   \<and> circular_buffer_pop (circular_buffer_init [0, 0, 0] 3)
       = (None, circular_buffer_init [0, 0, 0] 3)
   \<and> circular_buffer_mean (circular_buffer_init [0, 0, 0] 3) = 0
   \<and> circular_buffer_stddev (circular_buffer_init [0, 0, 0] 3) = 0"
proof -
  let ?F = "\<lparr>cb_buffer = [1, 2, 3], cb_size = 3, cb_head = 0, cb_tail = 0, cb_count = 3\<rparr>"
  let ?E = "circular_buffer_init [0, 0, 0] 3"
  note full = stats_buffer_boundaries [of ?F 4 "[0, 0, 0]" 3 "[1, 2, 3, 4]"]
  note empty = stats_buffer_boundaries [of ?E 1 "[0, 0, 0]" 3 "[1, 2, 3, 4]"]
  have invF: "cb_inv ?F" and invE: "cb_inv ?E"
    by (simp_all add: cb_inv_def circular_buffer_init_def)
  have cF: "cb_contents ?F = [1, 2, 3]" and cE: "cb_contents ?E = []"
    by code_simp+
  have pushes: "push_all [1, 2, 3, 4] ?E = ([True, True, True, False], ?F)"
    by code_simp
  have pops: "pop_n 4 ?F = ([Some 1, Some 2, Some 3, None], ?F\<lparr>cb_count := 0\<rparr>)"
    by code_simp
  have "circular_buffer_push ?F 4 = (False, ?F)"
    using full by simp
  moreover have "\<exists>cb'. circular_buffer_pop ?F = (Some 1, cb') \<and> cb_contents cb' = [2, 3]"
    using full invF cF by simp
  moreover have "\<exists>cb'. circular_buffer_push ?E 1 = (True, cb') \<and> cb_contents cb' = [1]"
    using empty invE cE by (simp add: init_fields)
  moreover have "circular_buffer_pop ?E = (None, ?E)"
    and "circular_buffer_mean ?E = 0" and "circular_buffer_stddev ?E = 0"
    using empty by (simp_all add: init_fields)
  ultimately show ?thesis
    using invF invE cF pushes pops by simp
qed

end
